theory Spec2Isabelle
  imports Main "HOL-Library.Word" "HOL-Library.AList"
begin

section \<open>JavaScript strings\<close>

text \<open>
  A JavaScript string is a sequence of UTF-16 code units: \<open>s.length\<close> counts code units and
  \<open>s.slice\<close> cuts between them. The request fields are the strings of a parsed JSON body;
  an absent field is \<open>None\<close>.
\<close>

type_synonym cu = "16 word"

type_synonym jsstring = "cu list"

definition ascii :: "string \<Rightarrow> jsstring" where
  "ascii s = map of_char s"

text \<open>\<open>x || ""\<close> on an optional string field.\<close>

definition or_empty :: "jsstring option \<Rightarrow> jsstring" where
  "or_empty x = (case x of None \<Rightarrow> [] | Some s \<Rightarrow> s)"

definition TIMEOUT_MS :: nat where
  "TIMEOUT_MS = 15000"

definition MAX_OUT :: nat where
  "MAX_OUT = 30000"

text \<open>\<open>normalize\<close>: every CR LF pair becomes LF, scanning from the left.\<close>

fun normalize :: "jsstring \<Rightarrow> jsstring" where
  "normalize (a # b # r) =
     (if a = 0x0D \<and> b = 0x0A then 0x0A # normalize r else a # normalize (b # r))"
| "normalize r = r"

definition truncation_marker :: jsstring where
  "truncation_marker = 0x0A # ascii ''...output truncated''"

text \<open>\<open>truncate\<close> of the source (the record package owns the plain name).\<close>

definition truncate_js :: "jsstring \<Rightarrow> jsstring" where
  "truncate_js s =
     (if s = [] then []
      else if length s \<le> MAX_OUT then s
      else take MAX_OUT s @ truncation_marker)"

text \<open>
  White space as \<open>String.prototype.trim\<close> and the class \<open>\s\<close> of a regular expression
  read it: the WhiteSpace and LineTerminator code points of ECMAScript.
\<close>

definition is_ws :: "cu \<Rightarrow> bool" where
  "is_ws c =
     (c = 0x09 \<or> c = 0x0A \<or> c = 0x0B \<or> c = 0x0C \<or> c = 0x0D \<or> c = 0x20 \<or> c = 0xA0
      \<or> c = 0x1680 \<or> (0x2000 \<le> c \<and> c \<le> 0x200A) \<or> c = 0x2028 \<or> c = 0x2029
      \<or> c = 0x202F \<or> c = 0x205F \<or> c = 0x3000 \<or> c = 0xFEFF)"

definition trim :: "jsstring \<Rightarrow> jsstring" where
  "trim s = rev (dropWhile is_ws (rev (dropWhile is_ws s)))"

definition endsWith :: "jsstring \<Rightarrow> jsstring \<Rightarrow> bool" where
  "endsWith s suf = (length suf \<le> length s \<and> drop (length s - length suf) s = suf)"

section \<open>Regular expressions of \<open>detectMainClass\<close>\<close>

text \<open>
  The two patterns are sequences of single-character items, each matched once or zero or
  more times (greedy, with backtracking); \<open>x+\<close> is \<open>x\<close> followed by \<open>x*\<close>. The flag of an
  item says whether it lies inside the capture group.
\<close>

datatype cls = Lit cu | Space | WordCh | IdStart

fun in_cls :: "cls \<Rightarrow> cu \<Rightarrow> bool" where
  "in_cls (Lit d) c = (c = d)"
| "in_cls Space c = is_ws c"
| "in_cls WordCh c =
     ((0x41 \<le> c \<and> c \<le> 0x5A) \<or> (0x61 \<le> c \<and> c \<le> 0x7A) \<or> (0x30 \<le> c \<and> c \<le> 0x39) \<or> c = 0x5F)"
| "in_cls IdStart c =
     ((0x41 \<le> c \<and> c \<le> 0x5A) \<or> (0x61 \<le> c \<and> c \<le> 0x7A) \<or> c = 0x5F)"

datatype item = One cls bool | Many cls bool

definition keep :: "bool \<Rightarrow> cu \<Rightarrow> jsstring \<Rightarrow> jsstring" where
  "keep g x cap = (if g then x # cap else cap)"

text \<open>
  \<open>match_here\<close> matches the items at the start of the string and returns the captured
  text of the first successful alternative: a starred item first tries to take one more
  character, and gives it back when the rest of the pattern fails.
\<close>

fun match_here :: "item list \<Rightarrow> jsstring \<Rightarrow> jsstring option" where
  "match_here [] s = Some []"
| "match_here (One c g # r) [] = None"
| "match_here (One c g # r) (x # xs) =
     (if in_cls c x then map_option (keep g x) (match_here r xs) else None)"
| "match_here (Many c g # r) [] = match_here r []"
| "match_here (Many c g # r) (x # xs) =
     (if in_cls c x
      then (case match_here (Many c g # r) xs of
              Some cap \<Rightarrow> Some (keep g x cap)
            | None \<Rightarrow> match_here r (x # xs))
      else match_here r (x # xs))"

text \<open>\<open>String.prototype.match\<close> without the global flag: the leftmost match.\<close>

fun re_search :: "item list \<Rightarrow> jsstring \<Rightarrow> jsstring option" where
  "re_search re [] = match_here re []"
| "re_search re (x # xs) =
     (case match_here re (x # xs) of Some cap \<Rightarrow> Some cap | None \<Rightarrow> re_search re xs)"

definition lit :: "string \<Rightarrow> item list" where
  "lit s = map (\<lambda>c. One (Lit (of_char c)) False) s"

definition plus :: "cls \<Rightarrow> item list" where
  "plus c = [One c False, Many c False]"

definition re_ident :: "item list" where
  "re_ident = [One IdStart True, Many WordCh True]"

definition re_public_class :: "item list" where
  "re_public_class = lit ''public'' @ plus Space @ lit ''class'' @ plus Space @ re_ident"

definition re_class :: "item list" where
  "re_class = lit ''class'' @ plus Space @ re_ident"

definition detectMainClass :: "jsstring \<Rightarrow> jsstring option" where
  "detectMainClass code =
     (case re_search re_public_class code of
        Some m \<Rightarrow> Some m
      | None \<Rightarrow> re_search re_class code)"

section \<open>Paths\<close>

text \<open>
  Node's \<open>path.join\<close> and \<open>path.dirname\<close> for POSIX paths (the service runs in a Linux
  container), read by segments: \<open>join\<close> glues its non-empty arguments with a slash and
  normalises the result, dropping empty and \<open>.\<close> segments and letting a \<open>..\<close> segment
  remove the segment before it.
\<close>

definition slash :: cu where
  "slash = 0x2F"

definition dot :: jsstring where
  "dot = ascii ''.''"

definition dotdot :: jsstring where
  "dotdot = ascii ''..''"

fun split_on :: "cu \<Rightarrow> jsstring \<Rightarrow> jsstring list" where
  "split_on d [] = [[]]"
| "split_on d (x # xs) =
     (if x = d then [] # split_on d xs
      else (case split_on d xs of [] \<Rightarrow> [[x]] | seg # segs \<Rightarrow> (x # seg) # segs))"

fun join_with :: "jsstring \<Rightarrow> jsstring list \<Rightarrow> jsstring" where
  "join_with d [] = []"
| "join_with d [s] = s"
| "join_with d (s # t # ss) = s @ d @ join_with d (t # ss)"

definition push_seg :: "bool \<Rightarrow> jsstring list \<Rightarrow> jsstring \<Rightarrow> jsstring list" where
  "push_seg allowAboveRoot res seg =
     (if seg = [] \<or> seg = dot then res
      else if seg = dotdot then
        (if res \<noteq> [] \<and> last res \<noteq> dotdot then butlast res
         else if allowAboveRoot then res @ [dotdot]
         else res)
      else res @ [seg])"

definition normalizeString :: "bool \<Rightarrow> jsstring \<Rightarrow> jsstring list" where
  "normalizeString allowAboveRoot p = foldl (push_seg allowAboveRoot) [] (split_on slash p)"

definition path_normalize :: "jsstring \<Rightarrow> jsstring" where
  "path_normalize p =
     (if p = [] then dot
      else
        (let isAbsolute = (hd p = slash);
             trailingSeparator = (last p = slash);
             r = join_with [slash] (normalizeString (\<not> isAbsolute) p)
         in if r = [] then (if isAbsolute then [slash] else if trailingSeparator then ascii ''./'' else dot)
            else (let r' = (if trailingSeparator then r @ [slash] else r)
                  in if isAbsolute then slash # r' else r')))"

definition path_join :: "jsstring \<Rightarrow> jsstring \<Rightarrow> jsstring" where
  "path_join a b =
     (let parts = filter (\<lambda>s. s \<noteq> []) [a, b]
      in if parts = [] then dot else path_normalize (join_with [slash] parts))"

definition path_dirname :: "jsstring \<Rightarrow> jsstring" where
  "path_dirname p =
     (if p = [] then dot
      else
        (let hasRoot = (hd p = slash);
             r = dropWhile (\<lambda>c. c \<noteq> slash) (dropWhile (\<lambda>c. c = slash) (rev (tl p)))
         in if r = [] then (if hasRoot then [slash] else dot)
            else if hasRoot \<and> length r = 1 then [slash, slash]
            else take (length r) p))"

section \<open>The file system\<close>

text \<open>
  The file system is a tree of directories and regular files (no symbolic links or
  special files); a directory lists its entries in the order \<open>readdir\<close> returns them. A
  path string addresses the tree by its segments from the root. The operations fail as
  the system calls do when the tree's shape forbids them, and as the environment decides
  for what the tree does not show.
\<close>

datatype node = File jsstring | Dir "(jsstring \<times> node) list"

datatype errno = EEXIST | ENOTDIR | ENOENT | EISDIR | EPERM | EACCES | ENAMETOOLONG | ENOSPC

datatype error = NoClassFound | FsError errno string jsstring | InvalidArgValue jsstring

text \<open>
  What the tree does not show is the environment's to decide: for a system call and a
  path it may name the error the call fails with (a name too long, a permission, a full
  disk).
\<close>

type_synonym fs_verdict = "string \<Rightarrow> jsstring \<Rightarrow> errno option"

definition fs_path :: "jsstring \<Rightarrow> jsstring list" where
  "fs_path p = normalizeString False p"

fun lookup :: "jsstring list \<Rightarrow> node \<Rightarrow> node option" where
  "lookup [] n = Some n"
| "lookup (s # p) (File c) = None"
| "lookup (s # p) (Dir es) = (case map_of es s of None \<Rightarrow> None | Some ch \<Rightarrow> lookup p ch)"

text \<open>\<open>mkdir\<close> with \<open>recursive: true\<close>: missing directories are created, existing ones kept.\<close>

fun mkdir_p :: "jsstring list \<Rightarrow> node \<Rightarrow> errno + node" where
  "mkdir_p [] (Dir es) = Inr (Dir es)"
| "mkdir_p [] (File c) = Inl EEXIST"
| "mkdir_p (s # p) (File c) = Inl ENOTDIR"
| "mkdir_p (s # p) (Dir es) =
     (case mkdir_p p (case map_of es s of None \<Rightarrow> Dir [] | Some ch \<Rightarrow> ch) of
        Inl e \<Rightarrow> Inl e
      | Inr ch' \<Rightarrow> Inr (Dir (AList.update s ch' es)))"

fun write_file :: "jsstring list \<Rightarrow> jsstring \<Rightarrow> node \<Rightarrow> errno + node" where
  "write_file [] c (Dir es) = Inl EISDIR"
| "write_file [] c (File old) = Inr (File c)"
| "write_file (s # p) c (File old) = Inl ENOTDIR"
| "write_file (s # p) c (Dir es) =
     (case map_of es s of
        None \<Rightarrow> (if p = [] then Inr (Dir (AList.update s (File c) es)) else Inl ENOENT)
      | Some ch \<Rightarrow>
          (case write_file p c ch of
             Inl e \<Rightarrow> Inl e
           | Inr ch' \<Rightarrow> Inr (Dir (AList.update s ch' es))))"

text \<open>\<open>rm\<close> with \<open>recursive: true, force: true\<close>: a missing path is no error.\<close>

fun rm_rf :: "jsstring list \<Rightarrow> node \<Rightarrow> errno + node" where
  "rm_rf [] n = Inl EPERM"
| "rm_rf (s # p) (File c) = Inl ENOTDIR"
| "rm_rf (s # p) (Dir es) =
     (if p = [] then Inr (Dir (AList.delete s es))
      else (case map_of es s of
              None \<Rightarrow> Inr (Dir es)
            | Some ch \<Rightarrow>
                (case rm_rf p ch of
                   Inl e \<Rightarrow> Inl e
                 | Inr ch' \<Rightarrow> Inr (Dir (AList.update s ch' es)))))"

definition errno_text :: "errno \<Rightarrow> string" where
  "errno_text e =
     (case e of
        EEXIST \<Rightarrow> ''EEXIST: file already exists''
      | ENOTDIR \<Rightarrow> ''ENOTDIR: not a directory''
      | ENOENT \<Rightarrow> ''ENOENT: no such file or directory''
      | EISDIR \<Rightarrow> ''EISDIR: illegal operation on a directory''
      | EPERM \<Rightarrow> ''EPERM: operation not permitted''
      | EACCES \<Rightarrow> ''EACCES: permission denied''
      | ENAMETOOLONG \<Rightarrow> ''ENAMETOOLONG: name too long''
      | ENOSPC \<Rightarrow> ''ENOSPC: no space left on device'')"

fun error_message :: "error \<Rightarrow> jsstring" where
  "error_message NoClassFound = ascii ''No class found in code.''"
| "error_message (FsError e syscall p) =
     ascii (errno_text e) @ ascii '', '' @ ascii syscall @ ascii '' '' @ [0x27] @ p @ [0x27]"
| "error_message (InvalidArgValue p) =
     ascii ''The argument '' @ [0x27] @ ascii ''path'' @ [0x27]
     @ ascii '' must be a string, Uint8Array, or URL without null bytes. Received ''
     @ [0x27] @ p @ [0x27]"

text \<open>
  The calls of \<open>fs.promises\<close>. Each refuses a path that holds a NUL code unit before it
  touches the file system (\<open>ERR_INVALID_ARG_VALUE\<close>; the message shows the path as it is,
  where Node escapes it), then fails as the environment says, then as the tree's shape
  makes it.
\<close>

definition fs_mkdir :: "fs_verdict \<Rightarrow> jsstring \<Rightarrow> node \<Rightarrow> error + node" where
  "fs_mkdir deny p fs =
     (if 0 \<in> set p then Inl (InvalidArgValue p)
      else (case deny ''mkdir'' p of
              Some e \<Rightarrow> Inl (FsError e ''mkdir'' p)
            | None \<Rightarrow>
                (case mkdir_p (fs_path p) fs of
                   Inl e \<Rightarrow> Inl (FsError e ''mkdir'' p)
                 | Inr fs' \<Rightarrow> Inr fs')))"

definition fs_writeFile :: "fs_verdict \<Rightarrow> jsstring \<Rightarrow> jsstring \<Rightarrow> node \<Rightarrow> error + node" where
  "fs_writeFile deny p c fs =
     (if 0 \<in> set p then Inl (InvalidArgValue p)
      else (case deny ''open'' p of
              Some e \<Rightarrow> Inl (FsError e ''open'' p)
            | None \<Rightarrow>
                (case write_file (fs_path p) c fs of
                   Inl e \<Rightarrow> Inl (FsError e ''open'' p)
                 | Inr fs' \<Rightarrow> Inr fs')))"

definition fs_readdir :: "jsstring \<Rightarrow> node \<Rightarrow> error + (jsstring \<times> node) list" where
  "fs_readdir p fs =
     (if 0 \<in> set p then Inl (InvalidArgValue p)
      else (case lookup (fs_path p) fs of
              None \<Rightarrow> Inl (FsError ENOENT ''scandir'' p)
            | Some (File c) \<Rightarrow> Inl (FsError ENOTDIR ''scandir'' p)
            | Some (Dir es) \<Rightarrow> Inr es))"

text \<open>
  \<open>fs_rm\<close> takes the environment's verdict on whether the removal is refused (a busy or
  protected entry) and, for a refused removal, what it leaves of the tree: a recursive
  removal deletes what it can before it fails. It returns the error, if any, and the tree.
\<close>

definition fs_rm :: "bool \<Rightarrow> (node \<Rightarrow> node) \<Rightarrow> jsstring \<Rightarrow> node \<Rightarrow> error option \<times> node" where
  "fs_rm refused leftover p fs =
     (if 0 \<in> set p then (Some (InvalidArgValue p), fs)
      else if refused then (Some (FsError EPERM ''rm'' p), leftover fs)
      else (case rm_rf (fs_path p) fs of
              Inl e \<Rightarrow> (Some (FsError e ''rm'' p), fs)
            | Inr fs' \<Rightarrow> (None, fs')))"


text \<open>
  \<open>walk\<close> of \<open>runJavaLocal\<close>, over the entries \<open>readdir\<close> returned for \<open>dir\<close>: a directory
  is walked in turn (its entries are what \<open>readdir\<close> returns for its path), a regular file
  is collected when its joined path ends in \<open>.java\<close>.
\<close>

fun walk :: "jsstring \<Rightarrow> (jsstring \<times> node) list \<Rightarrow> jsstring list" where
  "walk dir [] = []"
| "walk dir ((nm, Dir es) # its) = walk (path_join dir nm) es @ walk dir its"
| "walk dir ((nm, File c) # its) =
     (let p = path_join dir nm
      in (if endsWith p (ascii ''.java'') then [p] else []) @ walk dir its)"

section \<open>External processes\<close>

text \<open>
  \<open>runProcess\<close> registers callbacks and returns a promise; what happens next is the
  sequence of events the runtime delivers: chunks of the child's output, the expiry of
  the timer, and the child's \<open>close\<close> with its exit code (\<open>null\<close>, here \<open>None\<close>, when a signal
  ended it). The child's state records what the runner did to it: the text written to its
  input, the end of its input, and the signals sent. A command that cannot be started and
  errors on the child's streams are the event \<open>ErrorEvent\<close> below. The command, the
  arguments and the directory are taken to be ones that \<open>spawn\<close> accepts: a NUL code unit
  in one of them, which \<open>spawn\<close> refuses with an exception before any child exists, is
  outside the model (in the handler this is a \<open>mainClass\<close> that holds a NUL code unit).
\<close>

datatype signal = SIGTERM | SIGKILL

datatype event =
  StdoutData jsstring | StderrData jsstring | TimerFires | Close "int option" | ErrorEvent

text \<open>
  \<open>ErrorEvent\<close> is an \<open>error\<close> event on the child (the command could not be started) or
  on its input stream (the child ended before it read what was written: \<open>EPIPE\<close>).
  \<open>runProcess\<close> registers no listener for either, so the event is thrown out of the event
  loop and ends the server: \<open>Crashed\<close>. Nothing that awaits the promise runs any more.
\<close>

datatype 'a promise = Pending | Resolved 'a | Rejected error | Crashed

record proc_result =
  code :: "int option"
  killedByTimeout :: bool
  stdout :: jsstring
  stderr :: jsstring

record child =
  cmd :: jsstring
  args :: "jsstring list"
  cwd :: jsstring
  timer :: "nat option"
  out :: jsstring
  err :: jsstring
  killed :: bool
  signals :: "signal list"
  stdin_written :: "jsstring list"
  stdin_ended :: bool

fun on_event :: "event \<Rightarrow> child \<Rightarrow> child" where
  "on_event (StdoutData d) ch = ch\<lparr>out := out ch @ d\<rparr>"
| "on_event (StderrData d) ch = ch\<lparr>err := err ch @ d\<rparr>"
| "on_event TimerFires ch =
     (case timer ch of
        None \<Rightarrow> ch
      | Some ms \<Rightarrow> ch\<lparr>killed := True, signals := signals ch @ [SIGKILL], timer := None\<rparr>)"
| "on_event (Close cd) ch = ch\<lparr>timer := None\<rparr>"
| "on_event ErrorEvent ch = ch"

text \<open>
  The events are delivered in order up to the child's \<open>close\<close>, which clears the timer and
  resolves the promise, or up to an \<open>error\<close> event, which ends the server; with neither
  the promise stays pending.
\<close>

fun deliver :: "event list \<Rightarrow> child \<Rightarrow> child \<times> proc_result promise" where
  "deliver [] ch = (ch, Pending)"
| "deliver (Close cd # evs) ch =
     (on_event (Close cd) ch,
      Resolved \<lparr>code = cd, killedByTimeout = killed ch, stdout = out ch, stderr = err ch\<rparr>)"
| "deliver (ErrorEvent # evs) ch = (on_event ErrorEvent ch, Crashed)"
| "deliver (e # evs) ch = deliver evs (on_event e ch)"

definition spawn :: "jsstring \<Rightarrow> jsstring list \<Rightarrow> jsstring \<Rightarrow> child" where
  "spawn c a d =
     \<lparr>cmd = c, args = a, cwd = d, timer = None, out = [], err = [], killed = False,
      signals = [], stdin_written = [], stdin_ended = False\<rparr>"

definition runProcess ::
  "jsstring \<Rightarrow> jsstring list \<Rightarrow> jsstring \<Rightarrow> nat option \<Rightarrow> jsstring option \<Rightarrow> event list
     \<Rightarrow> child \<times> proc_result promise" where
  "runProcess c a d timeoutMs input evs =
     (let ch0 = spawn c a d;
          ch1 = ch0\<lparr>timer :=
                  Some (case timeoutMs of None \<Rightarrow> TIMEOUT_MS
                        | Some ms \<Rightarrow> if ms = 0 then TIMEOUT_MS else ms)\<rparr>;
          ch2 = (case input of
                   None \<Rightarrow> ch1
                 | Some s \<Rightarrow> if length s > 0 then ch1\<lparr>stdin_written := stdin_written ch1 @ [s]\<rparr>
                             else ch1);
          ch3 = ch2\<lparr>stdin_ended := True\<rparr>
      in deliver evs ch3)"

section \<open>The request\<close>

text \<open>
  The body is read at the types the interface gives its fields: \<open>code\<close>, \<open>mainClass\<close> and
  \<open>input\<close> are strings, \<open>files\<close> is a list of entries with a \<open>name\<close> and a \<open>content\<close>, and
  any of them may be absent. A field of another JSON type is outside the model.
\<close>

record src_file =
  name :: "jsstring option"
  content :: "jsstring option"

record body =
  body_code :: "jsstring option"
  body_files :: "src_file list option"
  body_mainClass :: "jsstring option"
  body_input :: "jsstring option"

record response =
  res_status :: nat
  res_output :: jsstring

text \<open>
  What the environment decides for one request: the temporary directory and the fresh
  identifier, the file system at the start, what each of the two processes emits and
  does to the file system, which calls of \<open>mkdir\<close> and \<open>writeFile\<close> it fails, and whether
  the final removal is refused and what it then leaves.
\<close>

record env =
  tmpdir :: jsstring
  uuid :: jsstring
  fs0 :: node
  javac_events :: "event list"
  javac_fs :: "node \<Rightarrow> node"
  java_events :: "event list"
  java_fs :: "node \<Rightarrow> node"
  denied :: fs_verdict
  rm_refused :: bool
  rm_leftover :: "node \<Rightarrow> node"

record world =
  w_fs :: node
  w_procs :: "child list"

definition msg_no_sources :: jsstring where
  "msg_no_sources = 0x274C # ascii '' No .java files found.''"

definition msg_compile_timeout :: jsstring where
  "msg_compile_timeout = [0x23F1, 0xFE0F] @ ascii '' Compile time limit exceeded.''"

definition msg_compile_error :: jsstring where
  "msg_compile_error = 0x274C # ascii '' Compile error.''"

definition msg_waited_for_input :: jsstring where
  "msg_waited_for_input =
     [0x23F1, 0xFE0F] @ ascii '' Program waited for input. Please type input in Input box (Scanner).''"

definition msg_time_limit :: jsstring where
  "msg_time_limit = [0x23F1, 0xFE0F] @ ascii '' Time limit exceeded (possible infinite loop).''"

definition msg_mainClass_not_found :: jsstring where
  "msg_mainClass_not_found = 0x274C # ascii '' mainClass not found. Use public class Main { ... }''"

section \<open>\<open>writeFiles\<close>\<close>

text \<open>
  The loop over \<open>body.files\<close>. It returns the error thrown, if any, and the file system as
  the loop left it: the files written before a failure stay.
\<close>

fun writeFilesLoop :: "fs_verdict \<Rightarrow> jsstring \<Rightarrow> src_file list \<Rightarrow> node \<Rightarrow> error option \<times> node" where
  "writeFilesLoop deny workDir [] fs = (None, fs)"
| "writeFilesLoop deny workDir (f # fl) fs =
     (let nm = trim (or_empty (name f));
          cont = normalize (or_empty (content f))
      in if \<not> endsWith nm (ascii ''.java'') then writeFilesLoop deny workDir fl fs
         else
           (let fullPath = path_join workDir nm
            in case fs_mkdir deny (path_dirname fullPath) fs of
                 Inl e \<Rightarrow> (Some e, fs)
               | Inr fs1 \<Rightarrow>
                   (case fs_writeFile deny fullPath cont fs1 of
                      Inl e \<Rightarrow> (Some e, fs1)
                    | Inr fs2 \<Rightarrow> writeFilesLoop deny workDir fl fs2)))"

definition writeSingle :: "fs_verdict \<Rightarrow> jsstring \<Rightarrow> body \<Rightarrow> node \<Rightarrow> error option \<times> node" where
  "writeSingle deny workDir b fs =
     (let src = normalize (or_empty (body_code b))
      in case detectMainClass src of
           None \<Rightarrow> (Some NoClassFound, fs)
         | Some main \<Rightarrow>
             (case fs_writeFile deny (path_join workDir (main @ ascii ''.java'')) src fs of
                Inl e \<Rightarrow> (Some e, fs)
              | Inr fs1 \<Rightarrow> (None, fs1)))"

definition writeFiles :: "fs_verdict \<Rightarrow> jsstring \<Rightarrow> body \<Rightarrow> node \<Rightarrow> error option \<times> node" where
  "writeFiles deny workDir b fs =
     (case body_files b of
        None \<Rightarrow> writeSingle deny workDir b fs
      | Some fl \<Rightarrow>
          if length fl > 0 then writeFilesLoop deny workDir fl fs else writeSingle deny workDir b fs)"

section \<open>\<open>runJavaLocal\<close>\<close>

text \<open>
  \<open>run_step\<close> is the second half of \<open>runJavaLocal\<close>, from the start of \<open>java\<close> on. Both
  halves thread the file system and the list of the children started so far.
\<close>

definition run_step :: "env \<Rightarrow> jsstring \<Rightarrow> jsstring \<Rightarrow> jsstring \<Rightarrow> world \<Rightarrow> jsstring promise \<times> world" where
  "run_step e workDir mainClass input w =
     (case runProcess (ascii ''java'')
             [ascii ''-Xms16m'', ascii ''-Xmx256m'', ascii ''-cp'', workDir, mainClass]
             workDir (Some TIMEOUT_MS) (Some (normalize input @ [0x0A])) (java_events e) of
        (ch, res) \<Rightarrow>
          (let w' = \<lparr>w_fs = java_fs e (w_fs w), w_procs = w_procs w @ [ch]\<rparr>
           in case res of
                Pending \<Rightarrow> (Pending, w')
              | Crashed \<Rightarrow> (Crashed, w')
              | Rejected x \<Rightarrow> (Rejected x, w')
              | Resolved r \<Rightarrow>
                  (if killedByTimeout r then
                     (if trim input = [] then (Resolved msg_waited_for_input, w')
                      else (Resolved msg_time_limit, w'))
                   else (Resolved (truncate_js (stdout r @ stderr r)), w'))))"

definition runJavaLocal :: "env \<Rightarrow> jsstring \<Rightarrow> jsstring \<Rightarrow> jsstring \<Rightarrow> world \<Rightarrow> jsstring promise \<times> world" where
  "runJavaLocal e workDir mainClass input w =
     (case fs_readdir workDir (w_fs w) of
        Inl x \<Rightarrow> (Rejected x, w)
      | Inr items \<Rightarrow>
          (let javaFiles = walk workDir items
           in if length javaFiles = 0 then (Resolved msg_no_sources, w)
              else
                (case runProcess (ascii ''javac'')
                        ([ascii ''-encoding'', ascii ''UTF-8'', ascii ''-d'', workDir] @ javaFiles)
                        workDir (Some TIMEOUT_MS) None (javac_events e) of
                   (ch, res) \<Rightarrow>
                     (let w' = \<lparr>w_fs = javac_fs e (w_fs w), w_procs = w_procs w @ [ch]\<rparr>
                      in case res of
                           Pending \<Rightarrow> (Pending, w')
                         | Crashed \<Rightarrow> (Crashed, w')
                         | Rejected x \<Rightarrow> (Rejected x, w')
                         | Resolved c \<Rightarrow>
                             (let compileOut = truncate_js (stdout c @ stderr c)
                              in if killedByTimeout c then (Resolved msg_compile_timeout, w')
                                 else if code c \<noteq> Some 0 then
                                   (Resolved (if compileOut = [] then msg_compile_error else compileOut), w')
                                 else run_step e workDir mainClass input w')))))"

section \<open>The \<open>/run\<close> handler\<close>

text \<open>Lines 147 to 152: the entry point comes from \<open>body.mainClass\<close> or from \<open>body.code\<close>.\<close>

definition resolve_mainClass :: "body \<Rightarrow> jsstring" where
  "resolve_mainClass b =
     (let mainClass = trim (or_empty (body_mainClass b))
      in if mainClass = [] then
           (case detectMainClass (normalize (or_empty (body_code b))) of
              None \<Rightarrow> mainClass
            | Some autoMain \<Rightarrow> autoMain)
         else mainClass)"

definition try_block :: "env \<Rightarrow> body \<Rightarrow> jsstring \<Rightarrow> jsstring \<Rightarrow> world \<Rightarrow> response promise \<times> world" where
  "try_block e b workDir input w =
     (case fs_mkdir (denied e) workDir (w_fs w) of
        Inl x \<Rightarrow> (Rejected x, w)
      | Inr fs1 \<Rightarrow>
          (case writeFiles (denied e) workDir b fs1 of
             (Some x, fs2) \<Rightarrow> (Rejected x, w\<lparr>w_fs := fs2\<rparr>)
           | (None, fs2) \<Rightarrow>
               (let mainClass = resolve_mainClass b
                in if mainClass = [] then
                     (Resolved \<lparr>res_status = 200, res_output = msg_mainClass_not_found\<rparr>, w\<lparr>w_fs := fs2\<rparr>)
                   else
                     (case runJavaLocal e workDir mainClass input (w\<lparr>w_fs := fs2\<rparr>) of
                        (Pending, w') \<Rightarrow> (Pending, w')
                      | (Crashed, w') \<Rightarrow> (Crashed, w')
                      | (Rejected x, w') \<Rightarrow> (Rejected x, w')
                      | (Resolved text, w') \<Rightarrow> (Resolved \<lparr>res_status = 200, res_output = text\<rparr>, w')))))"

text \<open>
  The outcome of a request that completes: the response sent, the file system and the
  processes started, and the error of the final removal, which the handler drops.
\<close>

record outcome =
  o_response :: response
  o_fs :: node
  o_procs :: "child list"
  o_rm_error :: "error option"

definition workDir_of :: "env \<Rightarrow> jsstring" where
  "workDir_of e = path_join (tmpdir e) (ascii ''java-run-'' @ uuid e)"


definition handler :: "env \<Rightarrow> body \<Rightarrow> outcome option" where
  "handler e b =
     (let input = normalize (or_empty (body_input b));
          workDir = workDir_of e
      in case try_block e b workDir input \<lparr>w_fs = fs0 e, w_procs = []\<rparr> of
           (Pending, w) \<Rightarrow> None
         | (Crashed, w) \<Rightarrow> None
         | (Rejected x, w) \<Rightarrow>
             (let resp = \<lparr>res_status = 500, res_output = ascii ''Server error: '' @ error_message x\<rparr>
              in case fs_rm (rm_refused e) (rm_leftover e) workDir (w_fs w) of
                   (y, fs') \<Rightarrow>
                     Some \<lparr>o_response = resp, o_fs = fs', o_procs = w_procs w, o_rm_error = y\<rparr>)
         | (Resolved resp, w) \<Rightarrow>
             (case fs_rm (rm_refused e) (rm_leftover e) workDir (w_fs w) of
                (y, fs') \<Rightarrow>
                  Some \<lparr>o_response = resp, o_fs = fs', o_procs = w_procs w, o_rm_error = y\<rparr>))"

section \<open>What the statements observe\<close>

text \<open>
  What a schedule of events shows to an observer, for the statements about the runner:
  the code of the child's \<open>close\<close>, whether the timer expired before it, the output the
  child emitted before it, and whether an \<open>error\<close> event came first. An \<open>error\<close> event
  ends what is observed, as a \<open>close\<close> does.
\<close>

fun first_close :: "event list \<Rightarrow> int option option" where
  "first_close [] = None"
| "first_close (Close cd # evs) = Some cd"
| "first_close (ErrorEvent # evs) = None"
| "first_close (e # evs) = first_close evs"

fun timed_out :: "event list \<Rightarrow> bool" where
  "timed_out [] = False"
| "timed_out (Close cd # evs) = False"
| "timed_out (ErrorEvent # evs) = False"
| "timed_out (TimerFires # evs) = True"
| "timed_out (e # evs) = timed_out evs"

fun stdout_of :: "event list \<Rightarrow> jsstring" where
  "stdout_of [] = []"
| "stdout_of (Close cd # evs) = []"
| "stdout_of (ErrorEvent # evs) = []"
| "stdout_of (StdoutData d # evs) = d @ stdout_of evs"
| "stdout_of (e # evs) = stdout_of evs"

fun stderr_of :: "event list \<Rightarrow> jsstring" where
  "stderr_of [] = []"
| "stderr_of (Close cd # evs) = []"
| "stderr_of (ErrorEvent # evs) = []"
| "stderr_of (StderrData d # evs) = d @ stderr_of evs"
| "stderr_of (e # evs) = stderr_of evs"

fun crashed :: "event list \<Rightarrow> bool" where
  "crashed [] = False"
| "crashed (Close cd # evs) = False"
| "crashed (ErrorEvent # evs) = True"
| "crashed (e # evs) = crashed evs"

text \<open>What the runner did to a child's input: the command, the chunks written, the end.\<close>

definition stdin_view :: "child \<Rightarrow> jsstring \<times> jsstring list \<times> bool" where
  "stdin_view ch = (cmd ch, stdin_written ch, stdin_ended ch)"

text \<open>
  The response of the handler once its \<open>try\<close> block has settled: the block's own response,
  or the status 500 with the message of the error it threw.
\<close>

definition respond :: "response promise \<Rightarrow> response option" where
  "respond r =
     (case r of
        Pending \<Rightarrow> None
      | Crashed \<Rightarrow> None
      | Resolved resp \<Rightarrow> Some resp
      | Rejected x \<Rightarrow> Some \<lparr>res_status = 500, res_output = ascii ''Server error: '' @ error_message x\<rparr>)"

text \<open>
  What the loop of \<open>writeFiles\<close> reads off one entry of \<open>body.files\<close>: its trimmed name,
  whether the name ends in \<open>.java\<close>, the path it is written to, and its content with the
  line ends normalised.
\<close>

definition upload_name :: "src_file \<Rightarrow> jsstring" where
  "upload_name f = trim (or_empty (name f))"

definition has_java_ext :: "src_file \<Rightarrow> bool" where
  "has_java_ext f = endsWith (upload_name f) (ascii ''.java'')"

definition target :: "jsstring \<Rightarrow> src_file \<Rightarrow> jsstring" where
  "target workDir f = path_join workDir (upload_name f)"

definition upload_content :: "src_file \<Rightarrow> jsstring" where
  "upload_content f = normalize (or_empty (content f))"

text \<open>
  A plain segment is a file or directory name: not empty, not \<open>.\<close> or \<open>..\<close>, and without a
  slash. A path lies inside a directory when it is the directory's path, a slash, and
  something more.
\<close>

definition plain :: "jsstring \<Rightarrow> bool" where
  "plain seg = (seg \<noteq> [] \<and> seg \<noteq> dot \<and> seg \<noteq> dotdot \<and> slash \<notin> set seg)"

definition lies_inside :: "jsstring \<Rightarrow> jsstring \<Rightarrow> bool" where
  "lies_inside dir p = (length dir + 1 < length p \<and> take (length dir + 1) p = dir @ [slash])"

section \<open>Entry-point detection as a scan\<close>

text \<open>
  What the two patterns find, written as a scan with no backtracking: at a position, the
  keyword \<open>class\<close>, white space, and a name (a letter or underscore, then the longest run
  of letters, digits and underscores), or the keyword \<open>public\<close> and white space before
  that. The scan returns the name at the first position of the second kind, and failing
  that at the first position of the first kind.
\<close>

definition is_ident_start :: "cu \<Rightarrow> bool" where
  "is_ident_start c = ((0x41 \<le> c \<and> c \<le> 0x5A) \<or> (0x61 \<le> c \<and> c \<le> 0x7A) \<or> c = 0x5F)"

definition is_ident_char :: "cu \<Rightarrow> bool" where
  "is_ident_char c = (is_ident_start c \<or> (0x30 \<le> c \<and> c \<le> 0x39))"

fun strip_prefix :: "jsstring \<Rightarrow> jsstring \<Rightarrow> jsstring option" where
  "strip_prefix [] s = Some s"
| "strip_prefix (k # ks) [] = None"
| "strip_prefix (k # ks) (x # xs) = (if x = k then strip_prefix ks xs else None)"

definition skip_ws1 :: "jsstring \<Rightarrow> jsstring option" where
  "skip_ws1 s = (if takeWhile is_ws s = [] then None else Some (dropWhile is_ws s))"

definition scan_identifier :: "jsstring \<Rightarrow> jsstring option" where
  "scan_identifier s =
     (case s of
        [] \<Rightarrow> None
      | c # r \<Rightarrow> if is_ident_start c then Some (c # takeWhile is_ident_char r) else None)"

definition scan_class_decl :: "jsstring \<Rightarrow> jsstring option" where
  "scan_class_decl s =
     Option.bind (Option.bind (strip_prefix (ascii ''class'') s) skip_ws1) scan_identifier"

definition scan_public_class_decl :: "jsstring \<Rightarrow> jsstring option" where
  "scan_public_class_decl s =
     Option.bind (Option.bind (strip_prefix (ascii ''public'') s) skip_ws1) scan_class_decl"

fun scan_first :: "(jsstring \<Rightarrow> jsstring option) \<Rightarrow> jsstring \<Rightarrow> jsstring option" where
  "scan_first decl [] = decl []"
| "scan_first decl (x # xs) =
     (case decl (x # xs) of Some n \<Rightarrow> Some n | None \<Rightarrow> scan_first decl xs)"

definition scan_entry_point :: "jsstring \<Rightarrow> jsstring option" where
  "scan_entry_point src =
     (case scan_first scan_public_class_decl src of
        Some n \<Rightarrow> Some n
      | None \<Rightarrow> scan_first scan_class_decl src)"

section \<open>Entry-point detection as the specification words it\<close>

text \<open>
  The specification's words: the entry point is the name of the first publicly declared
  type, and failing that of the first declared type of any visibility. Read over the
  words of the source (the runs of characters between white space), a type is declared by
  the keyword \<open>class\<close>, \<open>interface\<close>, \<open>enum\<close> or \<open>record\<close>, after any modifiers, followed
  by its name; it is publicly declared when the word \<open>public\<close> stands before the
  modifiers.
\<close>

fun java_words :: "jsstring \<Rightarrow> jsstring \<Rightarrow> jsstring list" where
  "java_words acc [] = (if acc = [] then [] else [acc])"
| "java_words acc (x # xs) =
     (if is_ws x then (if acc = [] then java_words [] xs else acc # java_words [] xs)
      else java_words (acc @ [x]) xs)"

definition type_keywords :: "jsstring list" where
  "type_keywords = [ascii ''class'', ascii ''interface'', ascii ''enum'', ascii ''record'']"

definition type_modifiers :: "jsstring list" where
  "type_modifiers =
     [ascii ''abstract'', ascii ''final'', ascii ''static'', ascii ''strictfp'', ascii ''sealed'',
      ascii ''non-sealed'']"

fun spec_type_decl :: "jsstring list \<Rightarrow> jsstring option" where
  "spec_type_decl [] = None"
| "spec_type_decl (w # ws) =
     (if w \<in> set type_keywords then
        (case ws of
           [] \<Rightarrow> None
         | n # rest \<Rightarrow>
             if takeWhile is_ident_char n \<noteq> [] \<and> is_ident_start (hd n)
             then Some (takeWhile is_ident_char n) else None)
      else if w \<in> set type_modifiers then spec_type_decl ws
      else None)"

fun spec_first_public_type :: "jsstring list \<Rightarrow> jsstring option" where
  "spec_first_public_type [] = None"
| "spec_first_public_type (w # ws) =
     (if w = ascii ''public'' then
        (case spec_type_decl ws of
           Some n \<Rightarrow> Some n
         | None \<Rightarrow> spec_first_public_type ws)
      else spec_first_public_type ws)"

fun spec_first_type :: "jsstring list \<Rightarrow> jsstring option" where
  "spec_first_type [] = None"
| "spec_first_type (w # ws) =
     (case spec_type_decl (w # ws) of
        Some n \<Rightarrow> Some n
      | None \<Rightarrow> spec_first_type ws)"

definition spec_entry_point :: "jsstring \<Rightarrow> jsstring option" where
  "spec_entry_point src =
     (case spec_first_public_type (java_words [] src) of
        Some n \<Rightarrow> Some n
      | None \<Rightarrow> spec_first_type (java_words [] src))"

section \<open>Concrete requests and environments\<close>

text \<open>
  A work area that holds one source file, and an environment whose two processes follow
  the given schedules and leave the file system alone, and which fails no call.
\<close>

definition ex_wd :: jsstring where
  "ex_wd = ascii ''/tmp/java-run-0''"

definition ex_world :: world where
  "ex_world =
     \<lparr>w_fs = Dir [(ascii ''tmp'',
               Dir [(ascii ''java-run-0'', Dir [(ascii ''Main.java'', File (ascii ''class Main {}''))])])],
      w_procs = []\<rparr>"

definition ex_allow :: fs_verdict where
  "ex_allow syscall p = None"

definition ex_env :: "event list \<Rightarrow> event list \<Rightarrow> env" where
  "ex_env cevs revs =
     \<lparr>tmpdir = ascii ''/tmp'', uuid = ascii ''0'', fs0 = Dir [(ascii ''tmp'', Dir [])],
      javac_events = cevs, javac_fs = id, java_events = revs, java_fs = id,
      denied = ex_allow, rm_refused = False, rm_leftover = id\<rparr>"

definition ex_body :: "jsstring option \<Rightarrow> body" where
  "ex_body inp =
     \<lparr>body_code = Some (ascii ''public class Main {}''), body_files = None,
      body_mainClass = None, body_input = inp\<rparr>"

definition ex_files :: "src_file list \<Rightarrow> body" where
  "ex_files fl = \<lparr>body_code = None, body_files = Some fl, body_mainClass = None, body_input = None\<rparr>"

definition ex_code :: "string \<Rightarrow> body" where
  "ex_code src =
     \<lparr>body_code = Some (ascii src), body_files = None, body_mainClass = None, body_input = None\<rparr>"

definition ex_upload_main :: src_file where
  "ex_upload_main = \<lparr>name = Some (ascii '' app/Main.java''), content = Some [0x61, 0x0D, 0x0A, 0x62]\<rparr>"

definition ex_upload_readme :: src_file where
  "ex_upload_readme = \<lparr>name = Some (ascii ''README.md''), content = Some (ascii ''notes'')\<rparr>"

definition ex_upload_evil :: src_file where
  "ex_upload_evil = \<lparr>name = Some (ascii ''../evil.java''), content = Some (ascii ''x'')\<rparr>"

definition ex_upload_nul :: src_file where
  "ex_upload_nul = \<lparr>name = Some (ascii ''A'' @ [0x00] @ ascii ''.java''), content = Some (ascii ''x'')\<rparr>"

section \<open>The runner against the schedule of events\<close>

lemma deliver_result:
  "snd (deliver evs ch) =
     (case first_close evs of
        None \<Rightarrow> (if crashed evs then Crashed else Pending)
      | Some cd \<Rightarrow>
          Resolved \<lparr>code = cd,
                    killedByTimeout = (killed ch \<or> (timer ch \<noteq> None \<and> timed_out evs)),
                    stdout = out ch @ stdout_of evs,
                    stderr = err ch @ stderr_of evs\<rparr>)"
proof (induction evs arbitrary: ch)
  case Nil
  show ?case by simp
next
  case (Cons e evs)
  show ?case
    by (cases e) (auto simp: Cons.IH split: option.splits)
qed

lemma deliver_signals:
  "signals (fst (deliver evs ch)) =
     signals ch @ (if timer ch \<noteq> None \<and> timed_out evs then [SIGKILL] else [])"
proof (induction evs arbitrary: ch)
  case Nil
  show ?case by simp
next
  case (Cons e evs)
  show ?case
    by (cases e) (auto simp: Cons.IH split: option.splits)
qed

lemma deliver_frame:
  "cmd (fst (deliver evs ch)) = cmd ch \<and> args (fst (deliver evs ch)) = args ch
   \<and> cwd (fst (deliver evs ch)) = cwd ch
   \<and> stdin_written (fst (deliver evs ch)) = stdin_written ch
   \<and> stdin_ended (fst (deliver evs ch)) = stdin_ended ch"
proof (induction evs arbitrary: ch)
  case Nil
  show ?case by simp
next
  case (Cons e evs)
  show ?case
    by (cases e) (auto simp: Cons.IH split: option.splits)
qed

lemma deliver_killed:
  "killed (fst (deliver evs ch)) = (killed ch \<or> (timer ch \<noteq> None \<and> timed_out evs))"
proof (induction evs arbitrary: ch)
  case Nil
  show ?case by simp
next
  case (Cons e evs)
  show ?case
    by (cases e) (auto simp: Cons.IH split: option.splits)
qed

lemma runProcess_result:
  "snd (runProcess c a d t i evs) =
     (case first_close evs of
        None \<Rightarrow> (if crashed evs then Crashed else Pending)
      | Some cd \<Rightarrow>
          Resolved \<lparr>code = cd, killedByTimeout = timed_out evs,
                    stdout = stdout_of evs, stderr = stderr_of evs\<rparr>)"
  by (simp add: runProcess_def Let_def deliver_result spawn_def split: option.splits)

lemma runProcess_child:
  "fst (runProcess c a d t i evs) = ch \<Longrightarrow>
     cmd ch = c \<and> args ch = a \<and> cwd ch = d
     \<and> signals ch = (if timed_out evs then [SIGKILL] else [])
     \<and> killed ch = timed_out evs
     \<and> stdin_written ch = (case i of None \<Rightarrow> [] | Some s \<Rightarrow> if s = [] then [] else [s])
     \<and> stdin_ended ch"
  by (auto simp add: runProcess_def Let_def deliver_signals deliver_frame deliver_killed spawn_def split: option.splits)

section \<open>The pipeline against the schedules of its two processes\<close>

lemma run_step_eq:
  "run_step e wd mc inp w =
     ((case first_close (java_events e) of
         None \<Rightarrow> (if crashed (java_events e) then Crashed else Pending)
       | Some cd \<Rightarrow>
           Resolved (if timed_out (java_events e)
                     then (if trim inp = [] then msg_waited_for_input else msg_time_limit)
                     else truncate_js (stdout_of (java_events e) @ stderr_of (java_events e)))),
      \<lparr>w_fs = java_fs e (w_fs w),
        w_procs = w_procs w @
          [fst (runProcess (ascii ''java'')
                  [ascii ''-Xms16m'', ascii ''-Xmx256m'', ascii ''-cp'', wd, mc]
                  wd (Some TIMEOUT_MS) (Some (normalize inp @ [0x0A])) (java_events e))]\<rparr>)"
  unfolding run_step_def
  by (cases "runProcess (ascii ''java'')
                  [ascii ''-Xms16m'', ascii ''-Xmx256m'', ascii ''-cp'', wd, mc]
                  wd (Some TIMEOUT_MS) (Some (normalize inp @ [0x0A])) (java_events e)")
     (use runProcess_result [of "ascii ''java''" "[ascii ''-Xms16m'', ascii ''-Xmx256m'', ascii ''-cp'', wd, mc]"
          wd "Some TIMEOUT_MS" "Some (normalize inp @ [0x0A])" "java_events e"]
      in \<open>auto simp: Let_def split: option.splits\<close>)

lemma runJavaLocal_eq:
  assumes "fs_readdir wd (w_fs w) = Inr items"
  shows "runJavaLocal e wd mc inp w =
     (if walk wd items = [] then (Resolved msg_no_sources, w)
      else
        (let w' = \<lparr>w_fs = javac_fs e (w_fs w),
                   w_procs = w_procs w @
                     [fst (runProcess (ascii ''javac'')
                        ([ascii ''-encoding'', ascii ''UTF-8'', ascii ''-d'', wd] @ walk wd items)
                        wd (Some TIMEOUT_MS) None (javac_events e))]\<rparr>
         in case first_close (javac_events e) of
              None \<Rightarrow> (if crashed (javac_events e) then Crashed else Pending, w')
            | Some cd \<Rightarrow>
                if timed_out (javac_events e) then (Resolved msg_compile_timeout, w')
                else if cd \<noteq> Some 0 then
                  (Resolved
                     (if truncate_js (stdout_of (javac_events e) @ stderr_of (javac_events e)) = []
                      then msg_compile_error
                      else truncate_js (stdout_of (javac_events e) @ stderr_of (javac_events e))), w')
                else run_step e wd mc inp w'))"
  unfolding runJavaLocal_def
  by (cases "runProcess (ascii ''javac'')
                        ([ascii ''-encoding'', ascii ''UTF-8'', ascii ''-d'', wd] @ walk wd items)
                        wd (Some TIMEOUT_MS) None (javac_events e)")
     (use runProcess_result [of "ascii ''javac''"
            "[ascii ''-encoding'', ascii ''UTF-8'', ascii ''-d'', wd] @ walk wd items"
            wd "Some TIMEOUT_MS" None "javac_events e"] assms
      in \<open>auto simp: Let_def split: option.splits\<close>)





section \<open>The handler in one equation\<close>

lemma handler_eq:
  "handler e b =
     (let T = try_block e b (workDir_of e) (normalize (or_empty (body_input b)))
                \<lparr>w_fs = fs0 e, w_procs = []\<rparr>;
          R = fs_rm (rm_refused e) (rm_leftover e) (workDir_of e) (w_fs (snd T))
      in map_option
           (\<lambda>resp. \<lparr>o_response = resp, o_fs = snd R, o_procs = w_procs (snd T),
                     o_rm_error = fst R\<rparr>)
           (respond (fst T)))"
  by (auto simp: handler_def Let_def respond_def split: prod.splits promise.splits)









lemma writeFiles_no_class:
  assumes "body_files b = None \<or> body_files b = Some []"
    and "detectMainClass (normalize (or_empty (body_code b))) = None"
  shows "writeFiles dn wd b f = (Some NoClassFound, f)"
  using assms by (auto simp: writeFiles_def writeSingle_def Let_def)

lemma writeFiles_multi:
  "body_files b = Some fl \<Longrightarrow> fl \<noteq> [] \<Longrightarrow> writeFiles dn wd b f = writeFilesLoop dn wd fl f"
  by (simp add: writeFiles_def)

lemma resolve_mainClass_empty:
  "trim (or_empty (body_mainClass b)) = [] \<Longrightarrow>
   detectMainClass (normalize (or_empty (body_code b))) = None \<Longrightarrow> resolve_mainClass b = []"
  by (simp add: resolve_mainClass_def)

section \<open>The handler's processes\<close>



lemma runJavaLocal_views:
  assumes "w_procs w = []"
  shows "map stdin_view (w_procs (snd (runJavaLocal e wd mc inp w))) = []
       \<or> map stdin_view (w_procs (snd (runJavaLocal e wd mc inp w))) = [(ascii ''javac'', [], True)]
       \<or> map stdin_view (w_procs (snd (runJavaLocal e wd mc inp w))) =
            [(ascii ''javac'', [], True), (ascii ''java'', [normalize inp @ [0x0A]], True)]"
proof (cases "fs_readdir wd (w_fs w)")
  case (Inl x)
  then show ?thesis
    using assms by (simp add: runJavaLocal_def)
next
  case (Inr items)
  have v: "stdin_view (fst (runProcess c a d t i evs)) =
             (c, (case i of None \<Rightarrow> [] | Some s \<Rightarrow> if s = [] then [] else [s]), True)" for c a d t i evs
    using runProcess_child [OF refl, of c a d t i evs] by (simp add: stdin_view_def)
  show ?thesis
    using assms
    by (auto simp: runJavaLocal_eq [OF Inr] run_step_eq Let_def v split: option.splits)
qed

lemma try_block_views:
  assumes "w_procs w = []"
  shows "map stdin_view (w_procs (snd (try_block e b wd inp w))) = []
       \<or> map stdin_view (w_procs (snd (try_block e b wd inp w))) = [(ascii ''javac'', [], True)]
       \<or> map stdin_view (w_procs (snd (try_block e b wd inp w))) =
            [(ascii ''javac'', [], True), (ascii ''java'', [normalize inp @ [0x0A]], True)]"
proof (cases "fs_mkdir (denied e) wd (w_fs w)")
  case (Inl x)
  then show ?thesis
    using assms by (simp add: try_block_def)
next
  case (Inr fs1)
  obtain r fs2 where wf: "writeFiles (denied e) wd b fs1 = (r, fs2)"
    by (cases "writeFiles (denied e) wd b fs1")
  show ?thesis
  proof (cases "r = None \<and> resolve_mainClass b \<noteq> []")
    case False
    then show ?thesis
      using assms Inr wf by (auto simp: try_block_def Let_def split: option.splits)
  next
    case True
    let ?w = "w\<lparr>w_fs := fs2\<rparr>"
    have p: "w_procs ?w = []"
      using assms by simp
    have "snd (try_block e b wd inp w) = snd (runJavaLocal e wd (resolve_mainClass b) inp ?w)"
      using True Inr wf
      by (auto simp: try_block_def Let_def split: prod.splits promise.splits)
    then show ?thesis
      using runJavaLocal_views [OF p, of e wd "resolve_mainClass b" inp] by simp
  qed
qed

lemma handler_procs:
  assumes "handler e b = Some oc"
  shows "o_procs oc =
           w_procs (snd (try_block e b (workDir_of e) (normalize (or_empty (body_input b)))
                           \<lparr>w_fs = fs0 e, w_procs = []\<rparr>))"
  using assms
  by (auto simp: handler_def Let_def split: prod.splits promise.splits sum.splits)

lemma runJavaLocal_java_args:
  assumes "w_procs w = []" and "ch \<in> set (w_procs (snd (runJavaLocal e wd mc inp w)))"
    and "cmd ch = ascii ''java''"
  shows "args ch = [ascii ''-Xms16m'', ascii ''-Xmx256m'', ascii ''-cp'', wd, mc]"
proof (cases "fs_readdir wd (w_fs w)")
  case (Inl x)
  then show ?thesis
    using assms by (simp add: runJavaLocal_def)
next
  case (Inr items)
  have c: "cmd (fst (runProcess c a d t i evs)) = c" and a: "args (fst (runProcess c a d t i evs)) = a"
    for c a d t i evs
    using runProcess_child [OF refl, of c a d t i evs] by simp_all
  have n: "ascii ''javac'' \<noteq> ascii ''java''"
    by (simp add: ascii_def)
  show ?thesis
    using assms n
    by (auto simp: runJavaLocal_eq [OF Inr] run_step_eq Let_def c a split: option.splits if_splits)
qed

lemma try_block_java_args:
  assumes "w_procs w = []" and "ch \<in> set (w_procs (snd (try_block e b wd inp w)))"
    and "cmd ch = ascii ''java''"
  shows "args ch = [ascii ''-Xms16m'', ascii ''-Xmx256m'', ascii ''-cp'', wd, resolve_mainClass b]"
proof (cases "fs_mkdir (denied e) wd (w_fs w)")
  case (Inl x)
  then show ?thesis
    using assms by (simp add: try_block_def)
next
  case (Inr fs1)
  obtain r fs2 where wf: "writeFiles (denied e) wd b fs1 = (r, fs2)"
    by (cases "writeFiles (denied e) wd b fs1")
  show ?thesis
  proof (cases "r = None \<and> resolve_mainClass b \<noteq> []")
    case False
    then show ?thesis
      using assms Inr wf by (auto simp: try_block_def Let_def split: option.splits)
  next
    case True
    let ?w = "w\<lparr>w_fs := fs2\<rparr>"
    have p: "w_procs ?w = []"
      using assms by simp
    have "snd (try_block e b wd inp w) = snd (runJavaLocal e wd (resolve_mainClass b) inp ?w)"
      using True Inr wf
      by (auto simp: try_block_def Let_def split: prod.splits promise.splits)
    then show ?thesis
      using runJavaLocal_java_args [OF p _ assms(3), of e wd "resolve_mainClass b" inp] assms(2)
      by simp
  qed
qed

lemma resolve_mainClass_files:
  "resolve_mainClass (b\<lparr>body_files := fl\<rparr>) = resolve_mainClass b"
  by (simp add: resolve_mainClass_def Let_def)




section \<open>The regular expressions against the scan\<close>

lemma ascii_Cons: "ascii (c # cs) = of_char c # ascii cs" and ascii_Nil: "ascii [] = []"
  by (simp_all add: ascii_def)

lemma map_keep_False: "map_option (keep False y) r = r"
  by (cases r) (simp_all add: keep_def)

lemma match_lit:
  "match_here (lit k @ r) s = Option.bind (strip_prefix (ascii k) s) (match_here r)"
proof (induction k arbitrary: s)
  case Nil
  show ?case by (simp add: lit_def ascii_def)
next
  case (Cons c k)
  have l: "lit (c # k) = One (Lit (of_char c)) False # lit k"
    by (simp add: lit_def)
  show ?case
  proof (cases s)
    case Nil
    then show ?thesis by (simp add: l ascii_Cons)
  next
    case (Cons x xs)
    then show ?thesis
      using Cons.IH [of xs]
      by (simp add: l ascii_Cons map_keep_False)
  qed
qed

lemma match_many:
  assumes "\<And>x xs. in_cls c x \<Longrightarrow> match_here r (x # xs) = None"
  shows "match_here (Many c g # r) s =
           map_option (\<lambda>cap. (if g then takeWhile (in_cls c) s else []) @ cap)
             (match_here r (dropWhile (in_cls c) s))"
proof (induction s)
  case Nil
  show ?case by (cases "match_here r []") auto
next
  case (Cons x xs)
  show ?case
  proof (cases "in_cls c x")
    case False
    then show ?thesis
      by (cases "match_here r (x # xs)") auto
  next
    case True
    then show ?thesis
      using Cons.IH assms [OF True, of xs]
      by (cases "match_here r (dropWhile (in_cls c) xs)") (auto simp: keep_def)
  qed
qed

lemma match_many_end:
  "match_here [Many c g] s = Some (if g then takeWhile (in_cls c) s else [])"
  by (induction s) (auto simp: keep_def)

lemma ws_not_ident: "is_ws x \<Longrightarrow> \<not> in_cls IdStart x"
  by (auto simp: is_ws_def word_le_nat_alt)

lemma ws_not_c: "is_ws x \<Longrightarrow> x \<noteq> 0x63"
  by (auto simp: is_ws_def)

lemma match_plus_space:
  assumes "\<And>x xs. is_ws x \<Longrightarrow> match_here r (x # xs) = None"
  shows "match_here (plus Space @ r) s = Option.bind (skip_ws1 s) (match_here r)"
proof (cases s)
  case Nil
  then show ?thesis by (simp add: plus_def skip_ws1_def)
next
  case (Cons x xs)
  have a: "\<And>x xs. in_cls Space x \<Longrightarrow> match_here r (x # xs) = None"
    using assms by simp
  have ws: "in_cls Space = is_ws"
    by (rule ext) simp
  show ?thesis
    using match_many [where c = Space and r = r and g = False and s = xs, OF a]
    by (cases "match_here r (dropWhile is_ws xs)") (auto simp: Cons plus_def skip_ws1_def keep_def ws)
qed

lemma word_is_ident_char: "in_cls WordCh = is_ident_char"
  by (rule ext) (auto simp: is_ident_char_def is_ident_start_def)

lemma match_ident: "match_here re_ident s = scan_identifier s"
  by (cases s)
     (auto simp: re_ident_def scan_identifier_def match_many_end keep_def word_is_ident_char
        is_ident_start_def)

lemma ident_no_ws: "is_ws x \<Longrightarrow> match_here re_ident (x # xs) = None"
  using ws_not_ident [of x] by (simp add: re_ident_def del: in_cls.simps)

lemma match_class: "match_here re_class s = scan_class_decl s"
proof -
  have eq: "match_here re_ident = scan_identifier"
    by (rule ext) (rule match_ident)
  have "match_here (plus Space @ re_ident) = (\<lambda>t. Option.bind (skip_ws1 t) scan_identifier)"
    using match_plus_space [of re_ident, OF ident_no_ws] by (simp add: eq fun_eq_iff)
  then show ?thesis
    by (simp add: re_class_def scan_class_decl_def match_lit)
qed

lemma class_no_ws: "is_ws x \<Longrightarrow> match_here re_class (x # xs) = None"
  using ws_not_c [of x] by (simp add: re_class_def lit_def)

lemma match_public_class: "match_here re_public_class s = scan_public_class_decl s"
proof -
  have eq: "match_here re_class = scan_class_decl"
    by (rule ext) (rule match_class)
  have "match_here (plus Space @ re_class) = (\<lambda>t. Option.bind (skip_ws1 t) scan_class_decl)"
    using match_plus_space [of re_class, OF class_no_ws] by (simp add: eq fun_eq_iff)
  then have p: "match_here (plus Space @ re_class) t = Option.bind (skip_ws1 t) scan_class_decl" for t
    by simp
  have "match_here re_public_class s = match_here (lit ''public'' @ (plus Space @ re_class)) s"
    by (simp add: re_public_class_def re_class_def)
  also have "\<dots> = Option.bind (strip_prefix (ascii ''public'') s) (match_here (plus Space @ re_class))"
    by (rule match_lit)
  also have "\<dots> = scan_public_class_decl s"
    by (cases "strip_prefix (ascii ''public'') s") (simp_all add: scan_public_class_decl_def p)
  finally show ?thesis .
qed

lemma re_search_first: "re_search re s = scan_first (match_here re) s"
  by (induction s) (simp_all split: option.splits)

lemma detectMainClass_scan: "detectMainClass src = scan_entry_point src"
proof -
  have "match_here re_class = scan_class_decl" "match_here re_public_class = scan_public_class_decl"
    by (rule ext, rule match_class) (rule ext, rule match_public_class)
  then show ?thesis
    by (simp add: detectMainClass_def scan_entry_point_def re_search_first split: option.splits)
qed

section \<open>Splitting, joining and normalising paths\<close>

lemma split_on_nonempty: "split_on d s \<noteq> []"
  by (induction s) (auto split: list.splits)

lemma split_on_append: "split_on d (a @ d # b) = split_on d a @ split_on d b"
proof (induction a)
  case Nil
  show ?case by simp
next
  case (Cons y a)
  show ?case
    using Cons.IH split_on_nonempty [of d a]
    by (cases "split_on d a") auto
qed

lemma split_on_no_sep: "d \<notin> set x \<Longrightarrow> split_on d x = [x]"
  by (induction x) auto

lemma split_on_segments: "seg \<in> set (split_on d s) \<Longrightarrow> d \<notin> set seg"
proof (induction s arbitrary: seg)
  case Nil
  then show ?case by simp
next
  case (Cons y s)
  show ?case
  proof (cases "y = d")
    case True
    then show ?thesis
      using Cons by auto
  next
    case False
    obtain h t where ht: "split_on d s = h # t"
      using split_on_nonempty [of d s] by (cases "split_on d s") auto
    then show ?thesis
      using Cons False by auto
  qed
qed

lemma push_plain: "plain seg \<Longrightarrow> push_seg ab res seg = res @ [seg]"
  by (simp add: push_seg_def plain_def)

lemma foldl_push_plain:
  "\<forall>seg \<in> set segs. plain seg \<Longrightarrow> foldl (push_seg ab) res segs = res @ segs"
  by (induction segs arbitrary: res) (simp_all add: push_plain)

lemma foldl_push_keeps_plain:
  assumes "\<forall>seg \<in> set res. plain seg" and "\<forall>seg \<in> set segs. slash \<notin> set seg"
  shows "\<forall>seg \<in> set (foldl (push_seg False) res segs). plain seg"
  using assms
proof (induction segs arbitrary: res)
  case Nil
  then show ?case by simp
next
  case (Cons s segs)
  have "\<forall>seg \<in> set (push_seg False res s). plain seg"
    using Cons.prems by (auto simp: push_seg_def plain_def dest: in_set_butlastD)
  then show ?case
    using Cons by simp
qed

lemma normalizeString_plain: "\<forall>seg \<in> set (normalizeString False p). plain seg"
  unfolding normalizeString_def
  by (rule foldl_push_keeps_plain) (auto dest: split_on_segments)

lemma join_with_append:
  "a \<noteq> [] \<Longrightarrow> b \<noteq> [] \<Longrightarrow> join_with d (a @ b) = join_with d a @ d @ join_with d b"
  by (induction d a rule: join_with.induct) (auto simp: neq_Nil_conv)

lemma split_join:
  "segs \<noteq> [] \<Longrightarrow> \<forall>seg \<in> set segs. d \<notin> set seg \<Longrightarrow> split_on d (join_with [d] segs) = segs"
proof (induction "[d]" segs rule: join_with.induct)
  case 1
  then show ?case by simp
next
  case (2 s)
  then show ?case by (simp add: split_on_no_sep)
next
  case (3 s t ss)
  then show ?case
    by (simp add: split_on_append split_on_no_sep)
qed

lemma split_on_suffix:
  "d \<notin> set b \<Longrightarrow> split_on d (a @ b) = butlast (split_on d a) @ [last (split_on d a) @ b]"
proof (induction a)
  case Nil
  then show ?case by (simp add: split_on_no_sep)
next
  case (Cons y a)
  obtain h t where ht: "split_on d a = h # t"
    using split_on_nonempty [of d a] by (cases "split_on d a") auto
  show ?case
    using Cons ht by (cases t) auto
qed

lemma join_with_nonempty: "segs \<noteq> [] \<Longrightarrow> hd segs \<noteq> [] \<Longrightarrow> join_with d segs \<noteq> []"
  by (induction d segs rule: join_with.induct) auto

lemma foldl_push_no_dotdot:
  "dotdot \<notin> set segs \<Longrightarrow>
     foldl (push_seg ab) res segs = res @ filter (\<lambda>t. t \<noteq> [] \<and> t \<noteq> dot) segs"
  by (induction segs arbitrary: res) (auto simp: push_seg_def)

lemma java_suffix_facts:
  "ascii ''.java'' \<noteq> []" "slash \<notin> set (ascii ''.java'')" "length (ascii ''.java'') = 5"
  "last (ascii ''.java'') \<noteq> slash"
  by (simp_all add: ascii_def slash_def)

lemma endsWith_split: "endsWith s suf \<Longrightarrow> s = take (length s - length suf) s @ suf"
  by (metis append_take_drop_id endsWith_def)

lemma last_segment_java:
  assumes "endsWith nm (ascii ''.java'')"
  shows "last (split_on slash nm) \<noteq> [] \<and> last (split_on slash nm) \<noteq> dot \<and> nm \<noteq> []
         \<and> last nm \<noteq> slash"
proof -
  let ?a = "take (length nm - length (ascii ''.java'')) nm"
  have nm: "nm = ?a @ ascii ''.java''"
    by (rule endsWith_split [OF assms])
  have "split_on slash nm = butlast (split_on slash ?a) @ [last (split_on slash ?a) @ ascii ''.java'']"
    using split_on_suffix [OF java_suffix_facts(2), of ?a] nm by simp
  then have l: "last (split_on slash nm) = last (split_on slash ?a) @ ascii ''.java''"
    by simp
  have "length (last (split_on slash nm)) \<ge> 5"
    unfolding l by (simp add: java_suffix_facts)
  moreover have "length dot = 1"
    by (simp add: dot_def ascii_def)
  moreover have "last nm = last (ascii ''.java'')"
    using nm java_suffix_facts(1) by (metis last_appendR)
  ultimately show ?thesis
    using nm java_suffix_facts by auto
qed

lemma path_join_inside:
  assumes wd: "wd = slash # join_with [slash] S" "S \<noteq> []" "\<forall>seg \<in> set S. plain seg"
    and nm: "dotdot \<notin> set (split_on slash nm)" "endsWith nm (ascii ''.java'')"
  shows "lies_inside wd (path_join wd nm)"
proof -
  let ?T = "filter (\<lambda>t. t \<noteq> [] \<and> t \<noteq> dot) (split_on slash nm)"
  let ?joined = "wd @ slash # nm"
  have facts: "last (split_on slash nm) \<noteq> []" "last (split_on slash nm) \<noteq> dot" "nm \<noteq> []"
    "last nm \<noteq> slash"
    using last_segment_java [OF nm(2)] by simp_all
  have "last (split_on slash nm) \<in> set (split_on slash nm)"
    using split_on_nonempty by simp
  then have T: "?T \<noteq> []"
    using facts by (auto simp: filter_empty_conv)
  have noslash: "\<forall>seg \<in> set S. slash \<notin> set seg"
    using wd(3) by (simp add: plain_def)
  have "split_on slash ?joined = split_on slash wd @ split_on slash nm"
    by (rule split_on_append)
  also have "split_on slash wd = [] # S"
    using split_join [OF wd(2) noslash] by (simp add: wd(1))
  finally have sp: "split_on slash ?joined = [] # S @ split_on slash nm"
    by simp
  have ns: "normalizeString False ?joined = S @ ?T"
    by (simp add: normalizeString_def sp push_seg_def foldl_push_plain [OF wd(3)]
          foldl_push_no_dotdot [OF nm(1)])
  have hdS: "hd S \<noteq> []"
    using wd(2,3) by (cases S) (auto simp: plain_def)
  have hdT: "hd ?T \<noteq> []"
    using T by (metis (mono_tags, lifting) hd_in_set mem_Collect_eq set_filter)
  have r: "join_with [slash] (S @ ?T) = join_with [slash] S @ [slash] @ join_with [slash] ?T"
    by (rule join_with_append [OF wd(2) T])
  have jn: "join_with [slash] ?T \<noteq> []"
    by (rule join_with_nonempty [OF T hdT])
  have jne: "join_with [slash] (S @ ?T) \<noteq> []"
    using r by simp
  have pj: "path_join wd nm = path_normalize ?joined"
    using facts(3) by (simp add: path_join_def wd(1))
  have ns': "normalizeString False (slash # join_with [slash] S @ slash # nm) = S @ ?T"
    using ns by (simp add: wd(1))
  have "path_normalize ?joined = slash # join_with [slash] (S @ ?T)"
    using jne facts(3,4) by (simp add: path_normalize_def wd(1) ns' Let_def)
  with pj have "path_join wd nm = slash # join_with [slash] (S @ ?T)"
    by (rule trans)
  also have "\<dots> = wd @ slash # join_with [slash] ?T"
    by (simp add: r wd(1))
  finally have "path_join wd nm = wd @ slash # join_with [slash] ?T" .
  then show ?thesis
    using jn by (simp add: lies_inside_def)
qed

section \<open>The work area's path\<close>

lemma run_dir_plain: "slash \<notin> set u \<Longrightarrow> plain (ascii ''java-run-'' @ u)"
  by (simp add: plain_def ascii_def dot_def dotdot_def slash_def)

lemma normalizeString_snoc:
  "plain x \<Longrightarrow> normalizeString ab (a @ slash # x) = normalizeString ab a @ [x]"
  by (simp add: normalizeString_def split_on_append split_on_no_sep push_plain plain_def)


lemma join_with_snoc:
  "join_with d (S @ [x]) = (if S = [] then x else join_with d S @ d @ x)"
  by (induction d S rule: join_with.induct) auto



lemma workDir_absolute:
  assumes "tmpdir e \<noteq> []" "hd (tmpdir e) = slash" "slash \<notin> set (uuid e)"
  shows "workDir_of e =
           slash # join_with [slash] (normalizeString False (tmpdir e) @ [ascii ''java-run-'' @ uuid e])"
proof -
  let ?x = "ascii ''java-run-'' @ uuid e"
  have p: "plain ?x"
    by (rule run_dir_plain [OF assms(3)])
  then have x: "?x \<noteq> []" "slash \<notin> set ?x"
    by (simp_all add: plain_def)
  then have lx: "last ?x \<noteq> slash"
    by (metis last_in_set)
  have "join_with [slash] (normalizeString False (tmpdir e) @ [?x]) \<noteq> []"
    using x by (simp add: join_with_snoc)
  then show ?thesis
    using assms(1,2) x lx
    by (simp add: workDir_of_def path_join_def path_normalize_def Let_def normalizeString_snoc [OF p])
qed

section \<open>Removing the work area\<close>




section \<open>Files that stay where they were written\<close>

lemma lookup_write_file:
  "write_file p c n = Inr n' \<Longrightarrow> lookup p n' = Some (File c)"
proof (induction p arbitrary: n n')
  case Nil
  then show ?case by (cases n) auto
next
  case (Cons s p)
  show ?case
  proof (cases n)
    case (File old)
    then show ?thesis using Cons.prems by simp
  next
    case (Dir es)
    show ?thesis
    proof (cases "map_of es s")
      case None
      then show ?thesis
        using Cons.prems Dir by (auto simp: update_conv' split: if_splits)
    next
      case (Some ch)
      then show ?thesis
        using Cons.prems Dir Cons.IH [of ch]
        by (auto simp: update_conv' split: sum.splits)
    qed
  qed
qed

lemma lookup_write_file_other:
  "write_file p c n = Inr n' \<Longrightarrow> q \<noteq> p \<Longrightarrow> lookup q n = Some (File d) \<Longrightarrow>
     lookup q n' = Some (File d)"
proof (induction p arbitrary: n n' q)
  case Nil
  then show ?case by (cases n; cases q) auto
next
  case (Cons s p)
  show ?case
  proof (cases n)
    case (File old)
    then show ?thesis using Cons.prems by simp
  next
    case (Dir es)
    show ?thesis
    proof (cases q)
      case Nil
      then show ?thesis using Cons.prems Dir by simp
    next
      case (Cons t q')
      show ?thesis
      proof (cases "t = s")
        case False
        then show ?thesis
          using Cons.prems Dir Cons
          by (auto simp: update_conv' split: option.splits if_splits sum.splits)
      next
        case True
        then obtain ch where ch: "map_of es s = Some ch" "lookup q' ch = Some (File d)"
          using Cons.prems(3) Dir Cons by (auto split: option.splits)
        obtain ch' where w: "write_file p c ch = Inr ch'" "n' = Dir (AList.update s ch' es)"
          using Cons.prems(1) Dir ch by (auto split: sum.splits)
        have "q' \<noteq> p"
          using Cons.prems(2) Cons True by simp
        then have "lookup q' ch' = Some (File d)"
          using Cons.IH [OF w(1) _ ch(2)] by simp
        then show ?thesis
          using w(2) Cons True by (simp add: update_conv')
      qed
    qed
  qed
qed

lemma lookup_mkdir_p:
  "mkdir_p p n = Inr n' \<Longrightarrow> lookup q n = Some (File d) \<Longrightarrow> lookup q n' = Some (File d)"
proof (induction p arbitrary: n n' q)
  case Nil
  then show ?case by (cases n) auto
next
  case (Cons s p)
  show ?case
  proof (cases n)
    case (File old)
    then show ?thesis using Cons.prems by simp
  next
    case (Dir es)
    obtain ch' where m: "mkdir_p p (case map_of es s of None \<Rightarrow> Dir [] | Some ch \<Rightarrow> ch) = Inr ch'"
      "n' = Dir (AList.update s ch' es)"
      using Cons.prems(1) Dir by (auto split: sum.splits)
    show ?thesis
    proof (cases q)
      case Nil
      then show ?thesis using Cons.prems Dir by simp
    next
      case (Cons t q')
      show ?thesis
      proof (cases "t = s")
        case False
        then show ?thesis
          using Cons.prems(2) Dir Cons m(2) by (simp add: update_conv')
      next
        case True
        then obtain ch where ch: "map_of es s = Some ch" "lookup q' ch = Some (File d)"
          using Cons.prems(2) Dir Cons by (auto split: option.splits)
        have "lookup q' ch' = Some (File d)"
          using Cons.IH [of ch ch' q'] m(1) ch by simp
        then show ?thesis
          using m(2) Cons True by (simp add: update_conv')
      qed
    qed
  qed
qed

section \<open>The loop over the uploaded files\<close>

lemma writeFilesLoop_step:
  "writeFilesLoop dn wd (f # fl) fs =
     (if \<not> has_java_ext f then writeFilesLoop dn wd fl fs
      else (case fs_mkdir dn (path_dirname (target wd f)) fs of
              Inl x \<Rightarrow> (Some x, fs)
            | Inr fs1 \<Rightarrow>
                (case fs_writeFile dn (target wd f) (upload_content f) fs1 of
                   Inl x \<Rightarrow> (Some x, fs1)
                 | Inr fs2 \<Rightarrow> writeFilesLoop dn wd fl fs2)))"
  by (simp add: Let_def has_java_ext_def upload_name_def target_def upload_content_def
        split: sum.splits)

lemma writeFilesLoop_filter:
  "writeFilesLoop dn wd fl fs = writeFilesLoop dn wd (filter has_java_ext fl) fs"
proof (induction fl arbitrary: fs)
  case Nil
  show ?case by simp
next
  case (Cons f fl)
  show ?case
    using Cons.IH
    by (simp add: writeFilesLoop_step del: writeFilesLoop.simps split: sum.splits)
qed

lemma writeFilesLoop_java_ok:
  assumes "writeFilesLoop dn wd (f # fl) fs = (None, fs')" and "has_java_ext f"
  obtains fs1 fs2 where "mkdir_p (fs_path (path_dirname (target wd f))) fs = Inr fs1"
    and "write_file (fs_path (target wd f)) (upload_content f) fs1 = Inr fs2"
    and "writeFilesLoop dn wd fl fs2 = (None, fs')"
  using assms
  by (auto simp: writeFilesLoop_step fs_mkdir_def fs_writeFile_def
        simp del: writeFilesLoop.simps split: sum.splits if_splits option.splits)

lemma fs_writeFile_nul: "0 \<in> set p \<Longrightarrow> fs_writeFile dn p c fs = Inl (InvalidArgValue p)"
  by (simp add: fs_writeFile_def)

lemma writeFilesLoop_nul:
  assumes "f \<in> set fl" and "has_java_ext f" and "0 \<in> set (target wd f)"
  shows "fst (writeFilesLoop dn wd fl fs) \<noteq> None"
  using assms
proof (induction fl arbitrary: fs)
  case Nil
  then show ?case by simp
next
  case (Cons g fl)
  show ?case
  proof (cases "g = f")
    case True
    then show ?thesis
      using Cons.prems
      by (simp add: writeFilesLoop_step fs_writeFile_nul del: writeFilesLoop.simps split: sum.splits)
  next
    case False
    then have "f \<in> set fl"
      using Cons.prems by simp
    then have "fst (writeFilesLoop dn wd fl fs') \<noteq> None" for fs'
      using Cons.IH Cons.prems by blast
    then show ?thesis
      by (simp add: writeFilesLoop_step del: writeFilesLoop.simps split: sum.splits)
  qed
qed

lemma writeFilesLoop_preserves:
  assumes "writeFilesLoop dn wd fl fs = (None, fs')"
    and "lookup q fs = Some (File d)"
    and "\<forall>f \<in> set fl. has_java_ext f \<longrightarrow> fs_path (target wd f) \<noteq> q"
  shows "lookup q fs' = Some (File d)"
  using assms
proof (induction fl arbitrary: fs)
  case Nil
  then show ?case by simp
next
  case (Cons f fl)
  show ?case
  proof (cases "has_java_ext f")
    case False
    then show ?thesis
      using Cons by (simp add: writeFilesLoop_step del: writeFilesLoop.simps)
  next
    case True
    obtain fs1 fs2 where m: "mkdir_p (fs_path (path_dirname (target wd f))) fs = Inr fs1"
      and w: "write_file (fs_path (target wd f)) (upload_content f) fs1 = Inr fs2"
      and l: "writeFilesLoop dn wd fl fs2 = (None, fs')"
      using writeFilesLoop_java_ok [OF Cons.prems(1) True] by blast
    have "lookup q fs1 = Some (File d)"
      by (rule lookup_mkdir_p [OF m Cons.prems(2)])
    moreover have "q \<noteq> fs_path (target wd f)"
      using Cons.prems(3) True by auto
    ultimately have "lookup q fs2 = Some (File d)"
      using lookup_write_file_other [OF w] by blast
    then show ?thesis
      using Cons.IH [OF l] Cons.prems(3) by simp
  qed
qed

lemma writeFilesLoop_written:
  assumes "writeFilesLoop dn wd fl fs = (None, fs')"
    and "i < length fl" and "has_java_ext (fl ! i)"
    and "\<forall>j < length fl. i < j \<and> has_java_ext (fl ! j) \<longrightarrow>
           fs_path (target wd (fl ! j)) \<noteq> fs_path (target wd (fl ! i))"
  shows "lookup (fs_path (target wd (fl ! i))) fs' = Some (File (upload_content (fl ! i)))"
  using assms
proof (induction fl arbitrary: fs i)
  case Nil
  then show ?case by simp
next
  case (Cons f fl)
  show ?case
  proof (cases i)
    case 0
    then have j: "has_java_ext f"
      using Cons.prems(3) by simp
    obtain fs1 fs2 where m: "mkdir_p (fs_path (path_dirname (target wd f))) fs = Inr fs1"
      and w: "write_file (fs_path (target wd f)) (upload_content f) fs1 = Inr fs2"
      and l: "writeFilesLoop dn wd fl fs2 = (None, fs')"
      using writeFilesLoop_java_ok [OF Cons.prems(1) j] by blast
    have a: "lookup (fs_path (target wd f)) fs2 = Some (File (upload_content f))"
      by (rule lookup_write_file [OF w])
    have b: "\<forall>g \<in> set fl. has_java_ext g \<longrightarrow> fs_path (target wd g) \<noteq> fs_path (target wd f)"
    proof (intro ballI impI)
      fix g assume g: "g \<in> set fl" "has_java_ext g"
      then obtain k where k: "k < length fl" "fl ! k = g"
        by (auto simp: in_set_conv_nth)
      then show "fs_path (target wd g) \<noteq> fs_path (target wd f)"
        using Cons.prems(4) [rule_format, of "Suc k"] g 0 by simp
    qed
    show ?thesis
      using writeFilesLoop_preserves [OF l a b] 0 by simp
  next
    case (Suc i')
    have p2: "i' < length fl" and p3: "has_java_ext (fl ! i')"
      using Cons.prems(2,3) Suc by simp_all
    have p4: "\<forall>j < length fl. i' < j \<and> has_java_ext (fl ! j) \<longrightarrow>
                fs_path (target wd (fl ! j)) \<noteq> fs_path (target wd (fl ! i'))"
    proof (intro allI impI)
      fix j assume "j < length fl" "i' < j \<and> has_java_ext (fl ! j)"
      then show "fs_path (target wd (fl ! j)) \<noteq> fs_path (target wd (fl ! i'))"
        using Cons.prems(4) [rule_format, of "Suc j"] Suc by simp
    qed
    obtain fs2 where l: "writeFilesLoop dn wd fl fs2 = (None, fs')"
    proof (cases "has_java_ext f")
      case False
      then show ?thesis
        using Cons.prems(1) that by (simp add: writeFilesLoop_step del: writeFilesLoop.simps)
    next
      case True
      then show ?thesis
        using writeFilesLoop_java_ok [OF Cons.prems(1) True] that by blast
    qed
    show ?thesis
      using Cons.IH [OF l p2 p3 p4] Suc by simp
  qed
qed

lemma target_inside:
  assumes "tmpdir e \<noteq> []" "hd (tmpdir e) = slash" "slash \<notin> set (uuid e)"
    and "has_java_ext f" and "dotdot \<notin> set (split_on slash (upload_name f))"
  shows "lies_inside (workDir_of e) (target (workDir_of e) f)"
proof -
  let ?S = "normalizeString False (tmpdir e) @ [ascii ''java-run-'' @ uuid e]"
  have "\<forall>seg \<in> set ?S. plain seg"
    using normalizeString_plain [of "tmpdir e"] run_dir_plain [OF assms(3)] by simp
  then show ?thesis
    using path_join_inside [OF workDir_absolute [OF assms(1-3)] _ _ assms(5)] assms(4)
    by (simp add: target_def has_java_ext_def)
qed

section \<open>The examples evaluated\<close>





section \<open>Cleanup of the work area\<close>




section \<open>The two-phase pipeline\<close>




section \<open>Output capping\<close>

text \<open>
  C3. For every string \<open>s\<close>: when \<open>s\<close> is longer than the cap of 30000 code units,
  \<open>truncate\<close> returns its first 30000 code units followed by the truncation marker (a line
  feed and the text \<open>...output truncated\<close>); when \<open>s\<close> is at or below the cap, it returns \<open>s\<close>
  unchanged.
\<close>

theorem truncate_cap:
  "(30000 < length s \<longrightarrow>
      truncate_js s = take 30000 s @ 0x0A # ascii ''...output truncated'')
   \<and> (length s \<le> 30000 \<longrightarrow> truncate_js s = s)"
  by (auto simp: truncate_js_def MAX_OUT_def truncation_marker_def)

theorem truncate_cap_witness:
  "30000 < length (replicate 30001 (0x41 :: cu))
   \<and> truncate_js (replicate 30001 0x41) = replicate 30000 0x41 @ 0x0A # ascii ''...output truncated''
   \<and> length (ascii ''hello'') \<le> 30000
   \<and> truncate_js (ascii ''hello'') = ascii ''hello''"
  using truncate_cap [of "replicate 30001 0x41"] truncate_cap [of "ascii ''hello''"]
  by (simp add: ascii_def)

section \<open>Entry-point detection\<close>

text \<open>
  C4, as the code has it. \<open>detectMainClass\<close> knows one keyword, \<open>class\<close>, and reads a
  declaration off the text alone: it returns the name that follows the first \<open>public\<close>,
  white space, \<open>class\<close>, white space in the source, and when these stand nowhere, the name
  that follows the first \<open>class\<close> and white space, and otherwise nothing. It agrees with the
  scan that reads these off position by position. A request with a single source text in
  which no such name is found ends with the status 500 and starts no process; when its
  work area could be created, the response is the text
  \<open>Server error: No class found in code.\<close>
\<close>

theorem entry_point_detection:
  "detectMainClass src = scan_entry_point src
   \<and> ((body_files b = None \<or> body_files b = Some [])
        \<and> scan_entry_point (normalize (or_empty (body_code b))) = None \<longrightarrow>
       (\<exists>oc. handler e b = Some oc \<and> o_procs oc = [] \<and> res_status (o_response oc) = 500
          \<and> (\<not> isl (fs_mkdir (denied e) (workDir_of e) (fs0 e)) \<longrightarrow>
               res_output (o_response oc) = ascii ''Server error: No class found in code.'')))"
proof -
  have "\<exists>oc. handler e b = Some oc \<and> o_procs oc = [] \<and> res_status (o_response oc) = 500
          \<and> (\<not> isl (fs_mkdir (denied e) (workDir_of e) (fs0 e)) \<longrightarrow>
               res_output (o_response oc) = ascii ''Server error: No class found in code.'')"
    if a: "body_files b = None \<or> body_files b = Some []"
      and n: "scan_entry_point (normalize (or_empty (body_code b))) = None"
  proof -
    have d: "detectMainClass (normalize (or_empty (body_code b))) = None"
      using n by (simp add: detectMainClass_scan)
    show ?thesis
      by (cases "fs_mkdir (denied e) (workDir_of e) (fs0 e)")
         (simp_all add: handler_eq try_block_def Let_def respond_def writeFiles_no_class [OF a d]
            ascii_def)
  qed
  then show ?thesis
    by (simp add: detectMainClass_scan)
qed

theorem entry_point_detection_witness:
  "detectMainClass (ascii ''class A {} public  class Main9 { }'') = Some (ascii ''Main9'')
   \<and> detectMainClass (ascii ''final class Helper{} class B {}'') = Some (ascii ''Helper'')
   \<and> map_option o_response (handler (ex_env [] []) (ex_code ''int x = 1;''))
       = Some \<lparr>res_status = 500, res_output = ascii ''Server error: No class found in code.''\<rparr>
   \<and> map_option o_procs (handler (ex_env [] []) (ex_code ''int x = 1;'')) = Some []"
proof -
  have s1: "scan_entry_point (ascii ''class A {} public  class Main9 { }'') = Some (ascii ''Main9'')"
    and s2: "scan_entry_point (ascii ''final class Helper{} class B {}'') = Some (ascii ''Helper'')"
    and s3: "scan_entry_point (normalize (or_empty (body_code (ex_code ''int x = 1;'')))) = None"
    and f: "body_files (ex_code ''int x = 1;'') = None"
    by code_simp+
  have m: "\<not> isl (fs_mkdir (denied (ex_env [] [])) (workDir_of (ex_env [] [])) (fs0 (ex_env [] [])))"
    by code_simp
  from entry_point_detection [of "ascii ''class A {} public  class Main9 { }''"] s1
  have "detectMainClass (ascii ''class A {} public  class Main9 { }'') = Some (ascii ''Main9'')"
    by simp
  moreover
  from entry_point_detection [of "ascii ''final class Helper{} class B {}''"] s2
  have "detectMainClass (ascii ''final class Helper{} class B {}'') = Some (ascii ''Helper'')"
    by simp
  moreover
  from entry_point_detection [of _ "ex_code ''int x = 1;''" "ex_env [] []"] s3 f m
  obtain oc where "handler (ex_env [] []) (ex_code ''int x = 1;'') = Some oc" "o_procs oc = []"
    "res_status (o_response oc) = 500"
    "res_output (o_response oc) = ascii ''Server error: No class found in code.''"
    by blast
  ultimately show ?thesis
    by (cases "o_response oc") simp
qed

text \<open>
  The specification has the first publicly declared type found, and failing that the first
  declared type. Where a modifier stands between \<open>public\<close> and \<open>class\<close>, the public class
  is passed over for an earlier class that is not public; a public interface is passed
  over for a later class; and in a source whose only type is an enum nothing is found, so
  that the request ends as one without any declared type.
\<close>

theorem first_public_type_not_detected:
  "spec_entry_point (ascii ''class Helper {} public final class Main {}'') = Some (ascii ''Main'')
   \<and> detectMainClass (ascii ''class Helper {} public final class Main {}'') = Some (ascii ''Helper'')
   \<and> spec_entry_point (ascii ''public interface Api {} class Impl {}'') = Some (ascii ''Api'')
   \<and> detectMainClass (ascii ''public interface Api {} class Impl {}'') = Some (ascii ''Impl'')
   \<and> spec_entry_point (ascii ''public enum Main { A }'') = Some (ascii ''Main'')
   \<and> detectMainClass (ascii ''public enum Main { A }'') = None"
  by code_simp

section \<open>Feeding the input\<close>

text \<open>
  C5, as the code has it. \<open>runProcess\<close> writes its \<open>input\<close> option to the child's input
  exactly when it is a non-empty string, as it stands and in one piece, and then ends the
  child's input; with no \<open>input\<close> or an empty one it ends the input with nothing written.
  In the pipeline the compiler gets no input. The run gets the request's input, CR LF
  pairs replaced by LF (by the handler and once more by \<open>runJavaLocal\<close>), followed by one
  line feed: this payload is never empty, so a request without input has a single line
  feed written to the program's input before it is ended.
\<close>

theorem stdin_feeding:
  "stdin_view (fst (runProcess c a d t i evs)) =
     (c, (case i of None \<Rightarrow> [] | Some s \<Rightarrow> if s = [] then [] else [s]), True)
   \<and> (handler e b = Some oc \<longrightarrow>
        map stdin_view (o_procs oc) = []
        \<or> map stdin_view (o_procs oc) = [(ascii ''javac'', [], True)]
        \<or> map stdin_view (o_procs oc) =
             [(ascii ''javac'', [], True),
              (ascii ''java'', [normalize (normalize (or_empty (body_input b))) @ [0x0A]], True)])"
proof -
  have "stdin_view (fst (runProcess c a d t i evs)) =
          (c, (case i of None \<Rightarrow> [] | Some s \<Rightarrow> if s = [] then [] else [s]), True)"
    using runProcess_child [OF refl, of c a d t i evs] by (simp add: stdin_view_def)
  moreover have "map stdin_view (o_procs oc) = []
        \<or> map stdin_view (o_procs oc) = [(ascii ''javac'', [], True)]
        \<or> map stdin_view (o_procs oc) =
             [(ascii ''javac'', [], True),
              (ascii ''java'', [normalize (normalize (or_empty (body_input b))) @ [0x0A]], True)]"
    if h: "handler e b = Some oc"
    using try_block_views [of "\<lparr>w_fs = fs0 e, w_procs = []\<rparr>" e b "workDir_of e"
            "normalize (or_empty (body_input b))"]
    by (simp add: handler_procs [OF h])
  ultimately show ?thesis
    by blast
qed

theorem stdin_feeding_witness:
  "map_option (map stdin_view \<circ> o_procs)
     (handler (ex_env [Close (Some 0)] [Close (Some 0)]) (ex_body (Some [0x34, 0x0D, 0x0A, 0x32])))
   = Some [(ascii ''javac'', [], True), (ascii ''java'', [[0x34, 0x0A, 0x32, 0x0A]], True)]"
proof -
  let ?E = "ex_env [Close (Some 0)] [Close (Some 0)]"
  let ?B = "ex_body (Some [0x34, 0x0D, 0x0A, 0x32])"
  have n: "map_option (length \<circ> o_procs) (handler ?E ?B) = Some 2"
    by code_simp
  then obtain oc where h: "handler ?E ?B = Some oc" and l: "length (o_procs oc) = 2"
    by (cases "handler ?E ?B") auto
  have p: "normalize (normalize (or_empty (body_input ?B))) @ [0x0A] = [0x34, 0x0A, 0x32, 0x0A]"
    by (simp add: ex_body_def or_empty_def)
  from stdin_feeding [of "[]" "[]" "[]" None None "[]" ?E ?B oc] h
  have "map stdin_view (o_procs oc) = []
        \<or> map stdin_view (o_procs oc) = [(ascii ''javac'', [], True)]
        \<or> map stdin_view (o_procs oc) =
             [(ascii ''javac'', [], True),
              (ascii ''java'', [normalize (normalize (or_empty (body_input ?B))) @ [0x0A]], True)]"
    by blast
  with l have "map stdin_view (o_procs oc) =
             [(ascii ''javac'', [], True),
              (ascii ''java'', [normalize (normalize (or_empty (body_input ?B))) @ [0x0A]], True)]"
    by (auto dest: arg_cong [where f = length])
  then show ?thesis
    using h by (simp only: p) simp
qed

text \<open>
  The specification has the input closed with nothing written when the request gives no
  input. For a request without an \<open>input\<close> field the run still gets one line feed.
\<close>

theorem empty_input_gets_newline:
  "body_input (ex_body None) = None
   \<and> map_option (map stdin_written \<circ> o_procs)
        (handler (ex_env [Close (Some 0)] [Close (Some 0)]) (ex_body None))
      = Some [[], [[0x0A]]]"
  by code_simp

section \<open>The external-process runner\<close>






section \<open>Materialising a multi-file request\<close>

text \<open>
  C8, as the code has it. For a request with a non-empty list of files, \<open>writeFiles\<close> is the
  loop over the list, and the loop does for the whole list what it does for the entries
  whose trimmed name ends in \<open>.java\<close>: every other entry is passed over, with no write and
  no error. When the loop ends without an error, every \<open>.java\<close> entry whose path no later
  \<open>.java\<close> entry writes again is a regular file at \<open>path.join(workDir, name)\<close> that holds
  the entry's content with CR LF replaced by LF (so the directories above it exist). The
  loop ends with an error when a \<open>.java\<close> entry's path holds a NUL code unit, which
  \<open>writeFile\<close> refuses. The path of an entry lies inside the work area when the name has
  no \<open>..\<close> segment; the work area is the one of a request whose temporary directory is
  absolute and whose identifier has no slash.
\<close>

theorem multi_file_materialization:
  "(body_files b = Some fl \<and> fl \<noteq> [] \<longrightarrow> writeFiles dn wd b fs = writeFilesLoop dn wd fl fs)
   \<and> writeFilesLoop dn wd fl fs = writeFilesLoop dn wd (filter has_java_ext fl) fs
   \<and> (writeFilesLoop dn wd fl fs = (None, fs') \<longrightarrow>
        (\<forall>i < length fl.
           has_java_ext (fl ! i)
           \<and> (\<forall>j < length fl. i < j \<and> has_java_ext (fl ! j) \<longrightarrow>
                  fs_path (target wd (fl ! j)) \<noteq> fs_path (target wd (fl ! i))) \<longrightarrow>
           lookup (fs_path (target wd (fl ! i))) fs' = Some (File (upload_content (fl ! i)))))
   \<and> (\<forall>g \<in> set fl. has_java_ext g \<and> 0 \<in> set (target wd g) \<longrightarrow>
          fst (writeFilesLoop dn wd fl fs) \<noteq> None)
   \<and> (tmpdir e \<noteq> [] \<and> hd (tmpdir e) = slash \<and> slash \<notin> set (uuid e)
        \<and> has_java_ext f \<and> dotdot \<notin> set (split_on slash (upload_name f)) \<longrightarrow>
        lies_inside (workDir_of e) (target (workDir_of e) f))"
proof (intro conjI impI allI ballI)
  assume "body_files b = Some fl \<and> fl \<noteq> []"
  then show "writeFiles dn wd b fs = writeFilesLoop dn wd fl fs"
    by (simp add: writeFiles_multi)
next
  show "writeFilesLoop dn wd fl fs = writeFilesLoop dn wd (filter has_java_ext fl) fs"
    by (rule writeFilesLoop_filter)
next
  fix i
  assume l: "writeFilesLoop dn wd fl fs = (None, fs')" and i: "i < length fl"
    and h: "has_java_ext (fl ! i)
           \<and> (\<forall>j < length fl. i < j \<and> has_java_ext (fl ! j) \<longrightarrow>
                  fs_path (target wd (fl ! j)) \<noteq> fs_path (target wd (fl ! i)))"
  from h have h1: "has_java_ext (fl ! i)"
    and h2: "\<forall>j < length fl. i < j \<and> has_java_ext (fl ! j) \<longrightarrow>
                  fs_path (target wd (fl ! j)) \<noteq> fs_path (target wd (fl ! i))"
    by (rule conjunct1, rule conjunct2)
  show "lookup (fs_path (target wd (fl ! i))) fs' = Some (File (upload_content (fl ! i)))"
    by (rule writeFilesLoop_written [OF l i h1 h2])
next
  fix g
  assume g: "g \<in> set fl" and n: "has_java_ext g \<and> 0 \<in> set (target wd g)"
  show "fst (writeFilesLoop dn wd fl fs) \<noteq> None"
    using writeFilesLoop_nul [OF g, of wd dn fs] n by blast
next
  assume a: "tmpdir e \<noteq> [] \<and> hd (tmpdir e) = slash \<and> slash \<notin> set (uuid e)
        \<and> has_java_ext f \<and> dotdot \<notin> set (split_on slash (upload_name f))"
  then show "lies_inside (workDir_of e) (target (workDir_of e) f)"
    using target_inside [of e f] by simp
qed

theorem multi_file_materialization_witness:
  "lookup [ascii ''tmp'', ascii ''java-run-0'', ascii ''app'', ascii ''Main.java'']
     (snd (writeFilesLoop ex_allow ex_wd [ex_upload_main, ex_upload_readme] (w_fs ex_world)))
     = Some (File [0x61, 0x0A, 0x62])
   \<and> lies_inside ex_wd (target ex_wd ex_upload_main)
   \<and> fst (writeFilesLoop ex_allow ex_wd [ex_upload_main, ex_upload_nul] (w_fs ex_world)) \<noteq> None
   \<and> writeFiles ex_allow ex_wd (ex_files [ex_upload_main, ex_upload_readme]) (w_fs ex_world)
       = writeFilesLoop ex_allow ex_wd [ex_upload_main] (w_fs ex_world)"
proof -
  let ?E = "ex_env [] []"
  let ?fl = "[ex_upload_main, ex_upload_readme]"
  let ?L = "writeFilesLoop ex_allow ex_wd ?fl (w_fs ex_world)"
  have ok: "fst ?L = None"
    by code_simp
  have l: "?L = (None, snd ?L)"
    using ok by (cases ?L) simp
  have j: "has_java_ext ex_upload_main"
    by code_simp
  have n: "\<not> has_java_ext ex_upload_readme"
    by code_simp
  have p: "fs_path (target ex_wd ex_upload_main)
              = [ascii ''tmp'', ascii ''java-run-0'', ascii ''app'', ascii ''Main.java'']"
    by code_simp
  have c: "upload_content ex_upload_main = [0x61, 0x0A, 0x62]"
    by code_simp
  have t: "tmpdir ?E \<noteq> [] \<and> hd (tmpdir ?E) = slash \<and> slash \<notin> set (uuid ?E)"
    by code_simp
  have d: "dotdot \<notin> set (split_on slash (upload_name ex_upload_main))"
    by code_simp
  have w: "workDir_of ?E = ex_wd"
    by code_simp
  have z: "has_java_ext ex_upload_nul \<and> 0 \<in> set (target ex_wd ex_upload_nul)"
    by code_simp
  have later: "\<forall>j < length ?fl. 0 < j \<and> has_java_ext (?fl ! j) \<longrightarrow>
                 fs_path (target ex_wd (?fl ! j)) \<noteq> fs_path (target ex_wd (?fl ! 0))"
    using n by (simp add: less_Suc_eq)
  note T = multi_file_materialization
         [where dn = ex_allow and wd = ex_wd and fl = ?fl and fs = "w_fs ex_world"
            and fs' = "snd ?L" and e = ?E and f = ex_upload_main]
  note N = multi_file_materialization
         [where dn = ex_allow and wd = ex_wd and fl = "[ex_upload_main, ex_upload_nul]"
            and fs = "w_fs ex_world"]
  have T3: "\<forall>i < length ?fl.
           has_java_ext (?fl ! i)
           \<and> (\<forall>j < length ?fl. i < j \<and> has_java_ext (?fl ! j) \<longrightarrow>
                  fs_path (target ex_wd (?fl ! j)) \<noteq> fs_path (target ex_wd (?fl ! i))) \<longrightarrow>
           lookup (fs_path (target ex_wd (?fl ! i))) (snd ?L) = Some (File (upload_content (?fl ! i)))"
    using T [THEN conjunct2, THEN conjunct2, THEN conjunct1] l by (rule mp)
  have T5: "lies_inside (workDir_of ?E) (target (workDir_of ?E) ex_upload_main)"
    using T [THEN conjunct2, THEN conjunct2, THEN conjunct2, THEN conjunct2] t j d by simp
  have N4: "\<forall>g \<in> set [ex_upload_main, ex_upload_nul]. has_java_ext g \<and> 0 \<in> set (target ex_wd g) \<longrightarrow>
          fst (writeFilesLoop ex_allow ex_wd [ex_upload_main, ex_upload_nul] (w_fs ex_world)) \<noteq> None"
    by (rule N [THEN conjunct2, THEN conjunct2, THEN conjunct2, THEN conjunct1])
  have N': "fst (writeFilesLoop ex_allow ex_wd [ex_upload_main, ex_upload_nul] (w_fs ex_world)) \<noteq> None"
    using N4 [rule_format, of ex_upload_nul] z by simp
  have "has_java_ext (?fl ! 0)"
    using j by simp
  with T3 [rule_format, of 0] later
  have "lookup (fs_path (target ex_wd (?fl ! 0))) (snd ?L) = Some (File (upload_content (?fl ! 0)))"
    by simp
  then have "lookup [ascii ''tmp'', ascii ''java-run-0'', ascii ''app'', ascii ''Main.java''] (snd ?L)
               = Some (File [0x61, 0x0A, 0x62])"
    by (simp add: p c)
  moreover have "writeFiles ex_allow ex_wd (ex_files ?fl) (w_fs ex_world)
                   = writeFilesLoop ex_allow ex_wd [ex_upload_main] (w_fs ex_world)"
    using multi_file_materialization
            [where b = "ex_files ?fl" and dn = ex_allow and wd = ex_wd and fl = ?fl
               and fs = "w_fs ex_world"] j n
    by (simp add: ex_files_def)
  ultimately show ?thesis
    using T5 N' by (simp only: w) simp
qed

text \<open>
  The specification has every written path inside the work area. An upload named
  \<open>../evil.java\<close> is written beside the work area, in the temporary directory.
\<close>

theorem upload_escapes_workarea:
  "has_java_ext ex_upload_evil
   \<and> fst (writeFilesLoop ex_allow ex_wd [ex_upload_evil] (w_fs ex_world)) = None
   \<and> lookup [ascii ''tmp'', ascii ''evil.java'']
        (snd (writeFilesLoop ex_allow ex_wd [ex_upload_evil] (w_fs ex_world))) = Some (File (ascii ''x''))
   \<and> target ex_wd ex_upload_evil = ascii ''/tmp/evil.java''
   \<and> \<not> lies_inside ex_wd (target ex_wd ex_upload_evil)"
  by code_simp

section \<open>The two run-timeout texts\<close>




section \<open>The entry point of a multi-file request\<close>

text \<open>
  C10, as the code has it. The class handed to \<open>java\<close> is the trimmed \<open>body.mainClass\<close>
  and, when that is blank, the class detected in \<open>body.code\<close>: whatever list of files a
  request carries, when it completes, every \<open>java\<close> process it started was given this
  class as the last of its arguments. A request with a non-empty list of files, a blank or
  absent \<open>mainClass\<close> and no class in \<open>code\<close> always completes without starting a process;
  when creating the work area or writing one of the files fails it answers with status
  500 and the error's message, and otherwise it answers with the text that \<open>mainClass\<close> was
  not found, whatever the files declare.
\<close>

theorem entry_point_ignores_files:
  "(handler e (b\<lparr>body_files := fl'\<rparr>) = Some oc' \<longrightarrow>
      (\<forall>ch \<in> set (o_procs oc'). cmd ch = ascii ''java'' \<longrightarrow>
         args ch =
           [ascii ''-Xms16m'', ascii ''-Xmx256m'', ascii ''-cp'', workDir_of e,
            (if trim (or_empty (body_mainClass b)) = []
             then (case detectMainClass (normalize (or_empty (body_code b))) of
                     None \<Rightarrow> [] | Some autoMain \<Rightarrow> autoMain)
             else trim (or_empty (body_mainClass b)))]))
   \<and> (body_files b = Some fl \<and> fl \<noteq> [] \<and> trim (or_empty (body_mainClass b)) = []
        \<and> detectMainClass (normalize (or_empty (body_code b))) = None \<longrightarrow>
       (\<exists>oc. handler e b = Some oc \<and> o_procs oc = []
          \<and> o_response oc =
              (case fs_mkdir (denied e) (workDir_of e) (fs0 e) of
                 Inl x \<Rightarrow> \<lparr>res_status = 500, res_output = ascii ''Server error: '' @ error_message x\<rparr>
               | Inr fs1 \<Rightarrow>
                   (case fst (writeFilesLoop (denied e) (workDir_of e) fl fs1) of
                      Some x \<Rightarrow> \<lparr>res_status = 500,
                                 res_output = ascii ''Server error: '' @ error_message x\<rparr>
                    | None \<Rightarrow> \<lparr>res_status = 200, res_output = msg_mainClass_not_found\<rparr>))))"
proof -
  have "\<exists>oc. handler e b = Some oc \<and> o_procs oc = []
          \<and> o_response oc =
              (case fs_mkdir (denied e) (workDir_of e) (fs0 e) of
                 Inl x \<Rightarrow> \<lparr>res_status = 500, res_output = ascii ''Server error: '' @ error_message x\<rparr>
               | Inr fs1 \<Rightarrow>
                   (case fst (writeFilesLoop (denied e) (workDir_of e) fl fs1) of
                      Some x \<Rightarrow> \<lparr>res_status = 500,
                                 res_output = ascii ''Server error: '' @ error_message x\<rparr>
                    | None \<Rightarrow> \<lparr>res_status = 200, res_output = msg_mainClass_not_found\<rparr>))"
    if f: "body_files b = Some fl" "fl \<noteq> []"
      and m: "trim (or_empty (body_mainClass b)) = []"
      and d: "detectMainClass (normalize (or_empty (body_code b))) = None"
  proof (cases "fs_mkdir (denied e) (workDir_of e) (fs0 e)")
    case (Inl x)
    then show ?thesis
      by (simp add: handler_eq try_block_def Let_def respond_def)
  next
    case (Inr fs1)
    obtain r fs2 where w: "writeFilesLoop (denied e) (workDir_of e) fl fs1 = (r, fs2)"
      by (cases "writeFilesLoop (denied e) (workDir_of e) fl fs1")
    show ?thesis
      by (cases r)
         (simp_all add: handler_eq try_block_def Let_def respond_def Inr w
            writeFiles_multi [OF f] resolve_mainClass_empty [OF m d])
  qed
  moreover have "args ch =
           [ascii ''-Xms16m'', ascii ''-Xmx256m'', ascii ''-cp'', workDir_of e,
            (if trim (or_empty (body_mainClass b)) = []
             then (case detectMainClass (normalize (or_empty (body_code b))) of
                     None \<Rightarrow> [] | Some autoMain \<Rightarrow> autoMain)
             else trim (or_empty (body_mainClass b)))]"
    if h: "handler e (b\<lparr>body_files := fl'\<rparr>) = Some oc'"
      and c: "ch \<in> set (o_procs oc')" "cmd ch = ascii ''java''" for ch
  proof -
    let ?b = "b\<lparr>body_files := fl'\<rparr>"
    let ?w = "\<lparr>w_fs = fs0 e, w_procs = []\<rparr>"
    have "ch \<in> set (w_procs (snd (try_block e ?b (workDir_of e)
                                     (normalize (or_empty (body_input ?b))) ?w)))"
      using c(1) by (simp only: handler_procs [OF h])
    then have "args ch = [ascii ''-Xms16m'', ascii ''-Xmx256m'', ascii ''-cp'', workDir_of e,
                          resolve_mainClass ?b]"
      using try_block_java_args [of ?w ch e ?b "workDir_of e" "normalize (or_empty (body_input ?b))"] c(2)
      by simp
    then show ?thesis
      by (simp add: resolve_mainClass_def Let_def split: option.splits)
  qed
  ultimately show ?thesis
    by blast
qed

theorem entry_point_ignores_files_witness:
  "map_option (map args \<circ> filter (\<lambda>ch. cmd ch = ascii ''java'') \<circ> o_procs)
     (handler (ex_env [Close (Some 0)] [Close (Some 0)])
        ((ex_files [\<lparr>name = Some (ascii ''Main.java''),
                      content = Some (ascii ''public class Main {}'')\<rparr>])
           \<lparr>body_mainClass := Some (ascii '' Main '')\<rparr>))
     = Some [[ascii ''-Xms16m'', ascii ''-Xmx256m'', ascii ''-cp'', ascii ''/tmp/java-run-0'',
              ascii ''Main'']]
   \<and> map_option o_response
       (handler (ex_env [] [])
          (ex_files [\<lparr>name = Some (ascii ''Main.java''),
                      content = Some (ascii ''public class Main {}'')\<rparr>]))
     = Some \<lparr>res_status = 200, res_output = msg_mainClass_not_found\<rparr>
   \<and> map_option o_procs
       (handler (ex_env [] [])
          (ex_files [\<lparr>name = Some (ascii ''Main.java''),
                      content = Some (ascii ''public class Main {}'')\<rparr>])) = Some []"
proof -
  let ?fl = "[\<lparr>name = Some (ascii ''Main.java''), content = Some (ascii ''public class Main {}'')\<rparr>]"
  let ?E = "ex_env [Close (Some 0)] [Close (Some 0)]"
  let ?B = "(ex_files ?fl)\<lparr>body_mainClass := Some (ascii '' Main '')\<rparr>"
  have a: "body_files (ex_files ?fl) = Some ?fl \<and> ?fl \<noteq> []
           \<and> trim (or_empty (body_mainClass (ex_files ?fl))) = []
           \<and> detectMainClass (normalize (or_empty (body_code (ex_files ?fl)))) = None"
    by code_simp
  have r: "(case fs_mkdir (denied (ex_env [] [])) (workDir_of (ex_env [] [])) (fs0 (ex_env [] [])) of
                 Inl x \<Rightarrow> \<lparr>res_status = 500, res_output = ascii ''Server error: '' @ error_message x\<rparr>
               | Inr fs1 \<Rightarrow>
                   (case fst (writeFilesLoop (denied (ex_env [] [])) (workDir_of (ex_env [] [])) ?fl fs1) of
                      Some x \<Rightarrow> \<lparr>res_status = 500,
                                 res_output = ascii ''Server error: '' @ error_message x\<rparr>
                    | None \<Rightarrow> \<lparr>res_status = 200, res_output = msg_mainClass_not_found\<rparr>))
           = \<lparr>res_status = 200, res_output = msg_mainClass_not_found\<rparr>"
    by code_simp
  have n: "map_option (map cmd \<circ> o_procs) (handler ?E ?B) = Some [ascii ''javac'', ascii ''java'']"
    by code_simp
  have en: "(if trim (or_empty (body_mainClass ?B)) = []
             then (case detectMainClass (normalize (or_empty (body_code ?B))) of
                     None \<Rightarrow> [] | Some autoMain \<Rightarrow> autoMain)
             else trim (or_empty (body_mainClass ?B))) = ascii ''Main''"
    by code_simp
  have wd: "workDir_of ?E = ascii ''/tmp/java-run-0''"
    by code_simp
  have ne: "ascii ''javac'' \<noteq> ascii ''java''"
    by (simp add: ascii_def)
  have bb: "?B\<lparr>body_files := body_files ?B\<rparr> = ?B"
    by simp
  from n obtain oc' where h: "handler ?E ?B = Some oc'"
    and cs: "map cmd (o_procs oc') = [ascii ''javac'', ascii ''java'']"
    by (cases "handler ?E ?B") auto
  from cs obtain c1 c2 where p: "o_procs oc' = [c1, c2]"
    and k: "cmd c1 = ascii ''javac''" "cmd c2 = ascii ''java''"
    by (auto simp: map_eq_Cons_conv)
  from entry_point_ignores_files [where e = ?E and b = ?B and fl' = "body_files ?B" and oc' = oc']
  have "\<forall>ch \<in> set (o_procs oc'). cmd ch = ascii ''java'' \<longrightarrow>
         args ch =
           [ascii ''-Xms16m'', ascii ''-Xmx256m'', ascii ''-cp'', workDir_of ?E,
            (if trim (or_empty (body_mainClass ?B)) = []
             then (case detectMainClass (normalize (or_empty (body_code ?B))) of
                     None \<Rightarrow> [] | Some autoMain \<Rightarrow> autoMain)
             else trim (or_empty (body_mainClass ?B)))]"
    using h by (simp only: bb) blast
  then have "args c2 = [ascii ''-Xms16m'', ascii ''-Xmx256m'', ascii ''-cp'', ascii ''/tmp/java-run-0'',
                        ascii ''Main'']"
    using p k(2) by (simp only: en wd) simp
  then have A: "map_option (map args \<circ> filter (\<lambda>ch. cmd ch = ascii ''java'') \<circ> o_procs) (handler ?E ?B)
     = Some [[ascii ''-Xms16m'', ascii ''-Xmx256m'', ascii ''-cp'', ascii ''/tmp/java-run-0'',
              ascii ''Main'']]"
    using h p k ne by simp
  from entry_point_ignores_files [where b = "ex_files ?fl" and fl = ?fl and e = "ex_env [] []"] a
  obtain oc where "handler (ex_env [] []) (ex_files ?fl) = Some oc" "o_procs oc = []"
    "o_response oc =
       (case fs_mkdir (denied (ex_env [] [])) (workDir_of (ex_env [] [])) (fs0 (ex_env [] [])) of
                 Inl x \<Rightarrow> \<lparr>res_status = 500, res_output = ascii ''Server error: '' @ error_message x\<rparr>
               | Inr fs1 \<Rightarrow>
                   (case fst (writeFilesLoop (denied (ex_env [] [])) (workDir_of (ex_env [] [])) ?fl fs1) of
                      Some x \<Rightarrow> \<lparr>res_status = 500,
                                 res_output = ascii ''Server error: '' @ error_message x\<rparr>
                    | None \<Rightarrow> \<lparr>res_status = 200, res_output = msg_mainClass_not_found\<rparr>))"
    by blast
  then have "map_option o_response (handler (ex_env [] []) (ex_files ?fl))
     = Some \<lparr>res_status = 200, res_output = msg_mainClass_not_found\<rparr>
   \<and> map_option o_procs (handler (ex_env [] []) (ex_files ?fl)) = Some []"
    by (simp only: r) simp
  with A show ?thesis
    by (rule conjI)
qed

text \<open>
  The claim has every such request answered with the not-found text. Two uploads of which
  one names a directory that the other has written as a file make the second write fail,
  and the request is answered with a server error.
\<close>

theorem files_conflict_is_server_error:
  "map_option o_response
     (handler (ex_env [] [])
        (ex_files [\<lparr>name = Some (ascii ''A.java''), content = Some (ascii ''public class A {}'')\<rparr>,
                   \<lparr>name = Some (ascii ''A.java/B.java''), content = Some (ascii ''class B {}'')\<rparr>]))
     \<noteq> Some \<lparr>res_status = 200, res_output = msg_mainClass_not_found\<rparr>
   \<and> map_option (res_status \<circ> o_response)
     (handler (ex_env [] [])
        (ex_files [\<lparr>name = Some (ascii ''A.java''), content = Some (ascii ''public class A {}'')\<rparr>,
                   \<lparr>name = Some (ascii ''A.java/B.java''), content = Some (ascii ''class B {}'')\<rparr>]))
     = Some 500"
  by code_simp

end
